theory Spec2Isabelle
  imports Main "HOL-Library.AList" "HOL-Library.Sublist" "HOL-Library.Char_ord"
    "HOL-Library.List_Lexorder"
begin

section \<open>Path strings\<close>

text \<open>
  Both installers build their paths as strings. \<open>bin/install.js\<close> uses Node's POSIX
  \<open>path.join\<close> and \<open>path.resolve\<close>; \<open>install.sh\<close> concatenates. The string
  functions below follow Node's \<open>lib/path.js\<close> (posix): a path is cut at every slash,
  empty and \<open>.\<close> segments are dropped, and \<open>..\<close> removes the segment before it.
\<close>

fun split_slash :: "string \<Rightarrow> string list" where
  "split_slash [] = [[]]"
| "split_slash (c # cs) =
     (if c = CHR ''/'' then [] # split_slash cs
      else (case split_slash cs of [] \<Rightarrow> [[c]] | s # ss \<Rightarrow> (c # s) # ss))"

fun join_slash :: "string list \<Rightarrow> string" where
  "join_slash [] = []"
| "join_slash [s] = s"
| "join_slash (s # t # ss) = s @ CHR ''/'' # join_slash (t # ss)"

definition is_absolute :: "string \<Rightarrow> bool" where
  "is_absolute p = (case p of [] \<Rightarrow> False | c # _ \<Rightarrow> c = CHR ''/'')"

definition trailing_slash :: "string \<Rightarrow> bool" where
  "trailing_slash p = (p \<noteq> [] \<and> last p = CHR ''/'')"

text \<open>
  \<open>normalizeString(path, allowAboveRoot)\<close> of Node, on the segments of the path:
  \<open>res\<close> is the list of segments kept so far.
\<close>

fun normalizeString :: "bool \<Rightarrow> string list \<Rightarrow> string list \<Rightarrow> string list" where
  "normalizeString allowAboveRoot res [] = res"
| "normalizeString allowAboveRoot res (s # ss) =
     (if s = [] \<or> s = ''.'' then normalizeString allowAboveRoot res ss
      else if s = ''..'' then
        (if res \<noteq> [] \<and> last res \<noteq> ''..''
         then normalizeString allowAboveRoot (butlast res) ss
         else if allowAboveRoot then normalizeString allowAboveRoot (res @ [''..'']) ss
         else normalizeString allowAboveRoot res ss)
      else normalizeString allowAboveRoot (res @ [s]) ss)"

definition normalize :: "string \<Rightarrow> string" where
  "normalize p =
     (if p = [] then ''.''
      else
        (let isAbsolute = is_absolute p;
             trailingSeparator = trailing_slash p;
             q = join_slash (normalizeString (\<not> isAbsolute) [] (split_slash p))
         in if q = [] then (if isAbsolute then ''/'' else if trailingSeparator then ''./'' else ''.'')
            else (if isAbsolute then ''/'' else []) @ q @ (if trailingSeparator then ''/'' else [])))"

datatype error =
    ERR_INVALID_ARG_TYPE
  | ENOENT
  | ENOTDIR
  | EEXIST
  | EINVAL
  | ERR_FS_CP_EINVAL
  | ERR_FS_CP_DIR_TO_NON_DIR
  | ERR_FS_CP_NON_DIR_TO_DIR
  | UNBOUND_VARIABLE
  | FETCH_FAILED

text \<open>
  \<open>path.join(...args)\<close>: an argument that is not a string (\<open>undefined\<close>, here \<open>None\<close>)
  raises a TypeError; empty arguments are skipped; the rest is joined with slashes and
  normalised.
\<close>

definition path_join :: "string option list \<Rightarrow> error + string" where
  "path_join args =
     (if None \<in> set args then Inl ERR_INVALID_ARG_TYPE
      else
        (let joined = join_slash (filter (\<lambda>a. a \<noteq> []) (map the args))
         in if joined = [] then Inr ''.'' else Inr (normalize joined)))"

text \<open>
  \<open>path.resolve(...args)\<close> walks its arguments from the right, then the working
  directory, until the path built so far is absolute.
\<close>

fun resolve_loop :: "string list \<Rightarrow> string \<Rightarrow> string \<times> bool" where
  "resolve_loop [] resolvedPath = (resolvedPath, False)"
| "resolve_loop (p # ps) resolvedPath =
     (if p = [] then resolve_loop ps resolvedPath
      else if is_absolute p then (p @ ''/'' @ resolvedPath, True)
      else resolve_loop ps (p @ ''/'' @ resolvedPath))"

definition path_resolve :: "string \<Rightarrow> string list \<Rightarrow> string" where
  "path_resolve cwd args =
     (case resolve_loop (rev args @ [cwd]) [] of
        (resolvedPath, resolvedAbsolute) \<Rightarrow>
          (let q = join_slash (normalizeString (\<not> resolvedAbsolute) [] (split_slash resolvedPath))
           in if resolvedAbsolute then ''/'' @ q else if q \<noteq> [] then q else ''.''))"

text \<open>
  The file a path string names: its segments below the root, a relative path taken from
  the working directory (which the operating system always gives as an absolute path).
\<close>

type_synonym path = "string list"

definition tree_path :: "string \<Rightarrow> string \<Rightarrow> path" where
  "tree_path cwd p =
     normalizeString False [] (split_slash (if is_absolute p then p else cwd @ ''/'' @ p))"

text \<open>JavaScript's \<open>a || b\<close> on values that are a string or \<open>undefined\<close>.\<close>

definition js_or :: "string option \<Rightarrow> string option \<Rightarrow> string option" where
  "js_or a b = (case a of None \<Rightarrow> b | Some s \<Rightarrow> if s = [] then b else Some s)"

text \<open>Decimal rendering of a counter, as a template string or \<open>$((...))\<close> prints it.\<close>

function show_nat :: "nat \<Rightarrow> string" where
  "show_nat n =
     (if n < 10 then [char_of (48 + n)]
      else show_nat (n div 10) @ [char_of (48 + n mod 10)])"
  by pat_completeness auto
termination
  by (relation "measure id") auto

section \<open>The file system\<close>

text \<open>
  A file system is a tree of regular files and directories. A directory is the list of
  its entries in the order a listing returns them. Symbolic links, permissions and special
  files are outside the model, so no operation fails for lack of permission or space.
\<close>

datatype node = File string | Dir "(string \<times> node) list"

fun lookup :: "node \<Rightarrow> path \<Rightarrow> node option" where
  "lookup n [] = Some n"
| "lookup (File x) (c # p) = None"
| "lookup (Dir es) (c # p) = (case map_of es c of None \<Rightarrow> None | Some m \<Rightarrow> lookup m p)"

definition is_dir :: "node option \<Rightarrow> bool" where
  "is_dir n = (case n of Some (Dir es) \<Rightarrow> True | _ \<Rightarrow> False)"

text \<open>
  \<open>alter p f fs\<close> rewrites the entry at \<open>p\<close>: \<open>f\<close> gets what is there (or \<open>None\<close>) and
  returns what shall be there, with the error of the operation if it had one. The parent
  of \<open>p\<close> has to be a directory.
\<close>

fun alter :: "path \<Rightarrow> (node option \<Rightarrow> node option \<times> error option) \<Rightarrow> node \<Rightarrow> node \<times> error option" where
  "alter [] f n = (n, Some EINVAL)"
| "alter (c # p) f (File x) = (File x, Some ENOTDIR)"
| "alter [c] f (Dir es) =
     (case f (map_of es c) of
        (None, e) \<Rightarrow> (Dir (AList.delete c es), e)
      | (Some m, e) \<Rightarrow> (Dir (AList.update c m es), e))"
| "alter (c # d # p) f (Dir es) =
     (case map_of es c of
        None \<Rightarrow> (Dir es, Some ENOENT)
      | Some m \<Rightarrow> (case alter (d # p) f m of (m', e) \<Rightarrow> (Dir (AList.update c m' es), e)))"

text \<open>
  Recursive directory creation (\<open>fs.mkdirSync(p, {recursive: true})\<close>, \<open>mkdir -p\<close>):
  missing directories are created along the path, an existing directory is left as it is,
  and a regular file on the way is an error.
\<close>

fun fresh_dirs :: "path \<Rightarrow> node" where
  "fresh_dirs [] = Dir []"
| "fresh_dirs (c # p) = Dir [(c, fresh_dirs p)]"

fun mkdir_p :: "path \<Rightarrow> node \<Rightarrow> error + node" where
  "mkdir_p [] (Dir es) = Inr (Dir es)"
| "mkdir_p [] (File x) = Inl EEXIST"
| "mkdir_p (c # p) (File x) = Inl ENOTDIR"
| "mkdir_p (c # p) (Dir es) =
     (case map_of es c of
        None \<Rightarrow> Inr (Dir (AList.update c (fresh_dirs p) es))
      | Some m \<Rightarrow>
          (case mkdir_p p m of
             Inl e \<Rightarrow> Inl e
           | Inr m' \<Rightarrow> Inr (Dir (AList.update c m' es))))"

text \<open>
  Recursive copy of the tree \<open>src\<close> onto what is at the destination (\<open>dst\<close>, \<open>None\<close>
  when nothing is there). Both \<open>fs.cpSync(src, dest, {recursive: true})\<close> (with its
  default \<open>force: true\<close>) and \<open>cp -r\<close> work this way: a directory is created when it is
  missing and entered when it exists, a file overwrites a file, and a file meeting a
  directory (or a directory meeting a file) is an error. Nothing at the destination is
  ever removed. Node throws at the first error (\<open>stop = True\<close>); \<open>cp\<close> reports it, goes
  on with the remaining entries and fails at the end (\<open>stop = False\<close>).
\<close>

fun cp_node :: "bool \<Rightarrow> node \<Rightarrow> node option \<Rightarrow> node \<times> error option"
  and cp_entries :: "bool \<Rightarrow> (string \<times> node) list \<Rightarrow> (string \<times> node) list
        \<Rightarrow> (string \<times> node) list \<times> error option" where
  "cp_node stop (File c) None = (File c, None)"
| "cp_node stop (File c) (Some (File d)) = (File c, None)"
| "cp_node stop (File c) (Some (Dir des)) = (Dir des, Some ERR_FS_CP_NON_DIR_TO_DIR)"
| "cp_node stop (Dir ses) None = (case cp_entries stop ses [] of (es, e) \<Rightarrow> (Dir es, e))"
| "cp_node stop (Dir ses) (Some (File d)) = (File d, Some ERR_FS_CP_DIR_TO_NON_DIR)"
| "cp_node stop (Dir ses) (Some (Dir des)) =
     (case cp_entries stop ses des of (es, e) \<Rightarrow> (Dir es, e))"
| "cp_entries stop [] des = (des, None)"
| "cp_entries stop ((n, s) # rest) des =
     (case cp_node stop s (map_of des n) of
        (d, e) \<Rightarrow>
          if stop \<and> e \<noteq> None then (AList.update n d des, e)
          else (case cp_entries stop rest (AList.update n d des) of
                  (des', e') \<Rightarrow> (des', case e of None \<Rightarrow> e' | Some x \<Rightarrow> Some x)))"

section \<open>What a run leaves behind\<close>

text \<open>
  A run ends with a file system, the lines written to standard output, what was written to
  standard error and an exit status. On standard error, \<open>Text\<close> is a line the installer
  prints itself and \<open>Diagnostic prog err\<close> stands for the message a program prints by
  itself when it fails with \<open>err\<close>: Node for an uncaught exception (it then exits with
  status 1), and \<open>bash\<close>, \<open>mktemp\<close>, \<open>git\<close>, \<open>mkdir\<close> and \<open>cp\<close> in the shell script.
\<close>

datatype msg = Text string | Diagnostic string error

record run =
  disk :: node
  stdout :: "string list"
  stderr :: "msg list"
  exit_code :: nat

text \<open>
  The copy loop, with the copy primitive and the glyph of the progress line as parameters.
  \<open>bin/install.js\<close> runs it with \<open>cpSync\<close> and the check mark
  (\<open>for (const skill of skillDirs)\<close>): copy the skill from the payload source \<open>S\<close> to
  the destination root \<open>T\<close> under the same name, print the progress line, count. An entry
  name read from a directory addresses the child of that name, so \<open>path.join(base, skill)\<close>
  is the path of the base extended by the name. The first failing copy ends the loop (the
  exception of \<open>cpSync\<close>).
\<close>

fun copy_loop ::
  "(path \<Rightarrow> path \<Rightarrow> node \<Rightarrow> node \<times> error option) \<Rightarrow> string \<Rightarrow> path \<Rightarrow> path \<Rightarrow> string list
     \<Rightarrow> node \<times> string list \<times> nat \<Rightarrow> (node \<times> string list \<times> nat) \<times> error option" where
  "copy_loop copy glyph S T [] st = (st, None)"
| "copy_loop copy glyph S T (skill # rest) (fs, out, installed) =
     (case copy (S @ [skill]) (T @ [skill]) fs of
        (fs', Some err) \<Rightarrow> ((fs', out, installed), Some err)
      | (fs', None) \<Rightarrow>
          copy_loop copy glyph S T rest (fs', out @ [glyph @ skill], installed + 1))"

definition closing_lines :: "nat \<Rightarrow> string list" where
  "closing_lines installed =
     ['''', ''Done! '' @ show_nat installed @ '' skills installed.'', '''',
      ''Skills are auto-activated by Claude Code based on your prompts.'',
      ''No additional configuration needed.'', '''']"

section \<open>The local-payload installer: \<open>bin/install.js\<close>\<close>

record js_env =
  argv :: "string list"
  env_HOME :: "string option"
  env_USERPROFILE :: "string option"
  cwd :: string
  dirname :: string

definition existsSync :: "node \<Rightarrow> path \<Rightarrow> bool" where
  "existsSync fs p = (lookup fs p \<noteq> None)"

text \<open>\<open>fs.readdirSync(p, {withFileTypes: true})\<close>: each entry with its \<open>isDirectory()\<close>.\<close>

definition readdirSync :: "node \<Rightarrow> path \<Rightarrow> error + (string \<times> bool) list" where
  "readdirSync fs p =
     (case lookup fs p of
        None \<Rightarrow> Inl ENOENT
      | Some (File x) \<Rightarrow> Inl ENOTDIR
      | Some (Dir es) \<Rightarrow> Inr (map (\<lambda>(n, m). (n, is_dir (Some m))) es))"

text \<open>
  \<open>fs.cpSync(src, dest, {recursive: true})\<close>: the source has to exist, the destination
  must not be the source or lie inside it, then the source tree is copied onto the
  destination. The source tree is read before anything is written.
\<close>

definition cpSync :: "path \<Rightarrow> path \<Rightarrow> node \<Rightarrow> node \<times> error option" where
  "cpSync src dest fs =
     (case lookup fs src of
        None \<Rightarrow> (fs, Some ENOENT)
      | Some s \<Rightarrow>
          if prefix src dest then (fs, Some ERR_FS_CP_EINVAL)
          else alter dest (\<lambda>d. case cp_node True s d of (n, e) \<Rightarrow> (Some n, e)) fs)"

definition check_mark :: string where
  "check_mark = ''  '' @ [CHR 0xE2, CHR 0x9C, CHR 0x93] @ '' ''"

definition isGlobal :: "js_env \<Rightarrow> bool" where
  "isGlobal e = (''--global'' \<in> set (drop 2 (argv e)))"

definition targetBase :: "js_env \<Rightarrow> error + string" where
  "targetBase e =
     (let home = js_or (env_HOME e) (env_USERPROFILE e)
      in if isGlobal e then path_join [home, Some ''.claude'', Some ''skills'']
         else path_join [Some (cwd e), Some ''.claude'', Some ''skills''])"

definition skillsSource :: "js_env \<Rightarrow> string" where
  "skillsSource e = path_resolve (cwd e) [dirname e, ''..'', ''skills'']"

definition install_js :: "js_env \<Rightarrow> node \<Rightarrow> run" where
  "install_js e fs0 =
     (case targetBase e of
        Inl err \<Rightarrow>
          \<lparr>disk = fs0, stdout = [], stderr = [Diagnostic ''node'' err], exit_code = 1\<rparr>
      | Inr target \<Rightarrow>
          (let S = tree_path (cwd e) (skillsSource e);
               T = tree_path (cwd e) target
           in if \<not> existsSync fs0 S then
                \<lparr>disk = fs0, stdout = [],
                 stderr = [Text (''Error: skills/ directory not found at '' @ skillsSource e)],
                 exit_code = 1\<rparr>
              else
                (case readdirSync fs0 S of
                   Inl err \<Rightarrow>
                     \<lparr>disk = fs0, stdout = [], stderr = [Diagnostic ''node'' err], exit_code = 1\<rparr>
                 | Inr dirents \<Rightarrow>
                     (let skillDirs = map fst (filter snd dirents)
                      in if length skillDirs = 0 then
                           \<lparr>disk = fs0, stdout = [],
                            stderr = [Text (''Error: No skill directories found in ''
                                              @ skillsSource e)],
                            exit_code = 1\<rparr>
                         else
                           (case mkdir_p T fs0 of
                              Inl err \<Rightarrow>
                                \<lparr>disk = fs0, stdout = [], stderr = [Diagnostic ''node'' err],
                                 exit_code = 1\<rparr>
                            | Inr fs1 \<Rightarrow>
                                (let banner =
                                       ['''',
                                        (if isGlobal e
                                         then ''Installing Next.js Claude skills globally...''
                                         else ''Installing Next.js Claude skills to project...''),
                                        ''Target: '' @ target, '''']
                                 in case copy_loop cpSync check_mark S T skillDirs (fs1, banner, 0) of
                                      ((fs2, out, installed), Some err) \<Rightarrow>
                                        \<lparr>disk = fs2, stdout = out,
                                         stderr = [Diagnostic ''node'' err], exit_code = 1\<rparr>
                                    | ((fs2, out, installed), None) \<Rightarrow>
                                        \<lparr>disk = fs2, stdout = out @ closing_lines installed,
                                         stderr = [], exit_code = 0\<rparr>))))))"

section \<open>The remote-fetch installer: \<open>install.sh\<close>\<close>

text \<open>
  The script runs under \<open>set -euo pipefail\<close>: reading an unset variable and every failing
  command end it with a non-zero status. What the run gets from outside: its arguments,
  \<open>$HOME\<close>, the working directory, the name \<open>mktemp -d\<close> picks, the working tree that
  \<open>git clone\<close> fetches (\<open>None\<close> when the fetch fails; git then exits with status 128),
  the \<open>cp\<close> at hand, and the collation order of the locale (\<open>LC_COLLATE\<close>), by which
  bash sorts the words of a pattern. With a source operand that ends in a slash and a
  destination that is an existing directory, POSIX and GNU \<open>cp -r\<close> copy the source
  directory \<^emph>\<open>into\<close> the destination, under the source's name; BSD \<open>cp\<close> copies the
  source's contents onto it.
\<close>

datatype cp_impl = GNU | BSD

record sh_env =
  sh_args :: "string list"
  sh_HOME :: "string option"
  sh_pwd :: string
  mktemp_name :: string
  remote :: "(string \<times> node) list option"
  cp_kind :: cp_impl
  collate :: "string \<Rightarrow> string \<Rightarrow> bool"

text \<open>
  Command substitution \<open>$(...)\<close> removes every trailing newline of the output, also
  those that belong to a name: \<open>$(pwd)\<close> is the working directory without the newlines
  its name ends in, and \<open>$(basename "$skill_dir")\<close> is the last segment of the word
  without the newlines it ends in. The name \<open>mktemp -d\<close> picks ends in the characters
  that replace the \<open>X\<close>s of its template, so \<open>$(mktemp -d)\<close> is that name unchanged.
\<close>

definition strip_newlines :: "string \<Rightarrow> string" where
  "strip_newlines s = rev (dropWhile (\<lambda>c. c = CHR 0x0A) (rev s))"

definition GLOBAL :: "sh_env \<Rightarrow> bool" where
  "GLOBAL e = foldl (\<lambda>g arg. if arg = ''--global'' then True else g) False (sh_args e)"

definition TARGET :: "sh_env \<Rightarrow> error + string" where
  "TARGET e =
     (if GLOBAL e then
        (case sh_HOME e of
           None \<Rightarrow> Inl UNBOUND_VARIABLE
         | Some h \<Rightarrow> Inr (h @ ''/.claude/skills''))
      else Inr (strip_newlines (sh_pwd e) @ ''/.claude/skills''))"

definition mktemp_d :: "path \<Rightarrow> node \<Rightarrow> node \<times> error option" where
  "mktemp_d p fs =
     alter p (\<lambda>d. case d of None \<Rightarrow> (Some (Dir []), None) | Some n \<Rightarrow> (Some n, Some EEXIST)) fs"

definition git_clone :: "(string \<times> node) list \<Rightarrow> path \<Rightarrow> node \<Rightarrow> node \<times> error option" where
  "git_clone tree p fs =
     alter p (\<lambda>d. case d of None \<Rightarrow> (Some (Dir tree), None) | Some n \<Rightarrow> (Some n, Some EEXIST)) fs"

definition rm_rf :: "path \<Rightarrow> node \<Rightarrow> node" where
  "rm_rf p fs = fst (alter p (\<lambda>d. (None, None)) fs)"

text \<open>
  \<open>cp -r "$skill_dir" "$TARGET/$skill_name"\<close>, where \<open>$skill_dir\<close> ends in a slash: the
  source has to be a directory.
\<close>

definition cp_r :: "cp_impl \<Rightarrow> path \<Rightarrow> path \<Rightarrow> node \<Rightarrow> node \<times> error option" where
  "cp_r impl src dest fs =
     (case lookup fs src of
        None \<Rightarrow> (fs, Some ENOENT)
      | Some (File x) \<Rightarrow> (fs, Some ENOTDIR)
      | Some (Dir ses) \<Rightarrow>
          (let into = (if impl = GNU \<and> is_dir (lookup fs dest) \<and> src \<noteq> []
                       then dest @ [last src] else dest)
           in if prefix src into then (fs, Some EINVAL)
              else alter into (\<lambda>d. case cp_node False (Dir ses) d of (n, e) \<Rightarrow> (Some n, e)) fs))"

text \<open>
  The words of \<open>"$TMPDIR/repo/skills"/*/\<close>: the directories of the payload whose name
  does not begin with a dot, sorted by the collation order \<open>le\<close> of the locale; when there
  is none the pattern itself stays, and its \<open>basename\<close> is \<open>*\<close>.
\<close>

definition hidden :: "string \<Rightarrow> bool" where
  "hidden n = (case n of [] \<Rightarrow> False | c # _ \<Rightarrow> c = CHR ''.'')"

fun insert_by :: "('a \<Rightarrow> 'a \<Rightarrow> bool) \<Rightarrow> 'a \<Rightarrow> 'a list \<Rightarrow> 'a list" where
  "insert_by le x [] = [x]"
| "insert_by le x (y # ys) = (if le x y then x # y # ys else y # insert_by le x ys)"

definition sort_by :: "('a \<Rightarrow> 'a \<Rightarrow> bool) \<Rightarrow> 'a list \<Rightarrow> 'a list" where
  "sort_by le xs = foldr (insert_by le) xs []"

definition glob_dirs :: "(string \<Rightarrow> string \<Rightarrow> bool) \<Rightarrow> node \<Rightarrow> path \<Rightarrow> string list" where
  "glob_dirs le fs p =
     (case lookup fs p of
        Some (Dir es) \<Rightarrow>
          sort_by le (map fst (filter (\<lambda>(n, m). \<not> hidden n \<and> is_dir (Some m)) es))
      | _ \<Rightarrow> [])"

definition skill_names :: "(string \<Rightarrow> string \<Rightarrow> bool) \<Rightarrow> node \<Rightarrow> path \<Rightarrow> string list" where
  "skill_names le fs p = (let ms = glob_dirs le fs p in if ms = [] then [''*''] else ms)"

text \<open>
  The loop of the script over the words of the pattern. For the word of the directory
  \<open>entry\<close>, \<open>skill_name\<close> is \<open>$(basename "$skill_dir")\<close>, the copy goes to
  \<open>"$TARGET/$skill_name"\<close> and the progress line shows \<open>skill_name\<close>. The destination
  string names the child \<open>skill_name\<close> of the destination root, the destination root
  itself when \<open>skill_name\<close> is empty or \<open>.\<close>, and its parent when it is \<open>..\<close>.
  Under \<open>set -e\<close> the first failing \<open>cp\<close> ends the script.
\<close>

fun sh_loop ::
  "cp_impl \<Rightarrow> path \<Rightarrow> path \<Rightarrow> string list
     \<Rightarrow> node \<times> string list \<times> nat \<Rightarrow> (node \<times> string list \<times> nat) \<times> error option" where
  "sh_loop impl S T [] st = (st, None)"
| "sh_loop impl S T (entry # rest) (fs, out, installed) =
     (let skill_name = strip_newlines entry
      in case cp_r impl (S @ [entry]) (normalizeString False T [skill_name]) fs of
           (fs', Some err) \<Rightarrow> ((fs', out, installed), Some err)
         | (fs', None) \<Rightarrow>
             sh_loop impl S T rest (fs', out @ [''  + '' @ skill_name], installed + 1))"

definition sh_body :: "sh_env \<Rightarrow> string \<Rightarrow> path \<Rightarrow> node \<Rightarrow> run" where
  "sh_body e target tmp fs1 =
     (let out0 = ['''', ''Cloning Next.js Claude skills...'']
      in case remote e of
           None \<Rightarrow>
             \<lparr>disk = fs1, stdout = out0, stderr = [Diagnostic ''git'' FETCH_FAILED],
              exit_code = 128\<rparr>
         | Some tree \<Rightarrow>
             (case git_clone tree (tmp @ [''repo'']) fs1 of
                (fs2, Some err) \<Rightarrow>
                  \<lparr>disk = fs1, stdout = out0, stderr = [Diagnostic ''git'' err], exit_code = 128\<rparr>
              | (fs2, None) \<Rightarrow>
                  (let T = tree_path (sh_pwd e) target
                   in case mkdir_p T fs2 of
                        Inl err \<Rightarrow>
                          \<lparr>disk = fs2, stdout = out0, stderr = [Diagnostic ''mkdir'' err],
                           exit_code = 1\<rparr>
                      | Inr fs3 \<Rightarrow>
                          (let S = tmp @ [''repo'', ''skills''];
                               out1 = out0 @
                                 [(if GLOBAL e then ''Installing globally to '' @ target
                                   else ''Installing to project at '' @ target), '''']
                           in case sh_loop (cp_kind e) S T (skill_names (collate e) fs3 S)
                                     (fs3, out1, 0) of
                                ((fs4, out, installed), Some err) \<Rightarrow>
                                  \<lparr>disk = fs4, stdout = out, stderr = [Diagnostic ''cp'' err],
                                   exit_code = 1\<rparr>
                              | ((fs4, out, installed), None) \<Rightarrow>
                                  \<lparr>disk = fs4, stdout = out @ closing_lines installed,
                                   stderr = [], exit_code = 0\<rparr>))))"

text \<open>
  The whole script. The \<open>EXIT\<close> trap is set once \<open>mktemp\<close> has succeeded, so every way
  out of \<open>sh_body\<close> passes through \<open>rm -rf "$TMPDIR"\<close>, which leaves the status as it is.
\<close>

definition install_sh :: "sh_env \<Rightarrow> node \<Rightarrow> run" where
  "install_sh e fs0 =
     (case TARGET e of
        Inl err \<Rightarrow>
          \<lparr>disk = fs0, stdout = [], stderr = [Diagnostic ''bash'' err], exit_code = 1\<rparr>
      | Inr target \<Rightarrow>
          (let tmp = tree_path (sh_pwd e) (mktemp_name e)
           in case mktemp_d tmp fs0 of
                (fs1, Some err) \<Rightarrow>
                  \<lparr>disk = fs0, stdout = [], stderr = [Diagnostic ''mktemp'' err], exit_code = 1\<rparr>
              | (fs1, None) \<Rightarrow>
                  (let r = sh_body e target tmp fs1
                   in r\<lparr>disk := rm_rf tmp (disk r)\<rparr>)))"

text \<open>Two paths are apart when neither lies on or below the other.\<close>

definition apart :: "path \<Rightarrow> path \<Rightarrow> bool" where
  "apart p q = (\<not> prefix p q \<and> \<not> prefix q p)"

text \<open>The names of the directories among the entries of a directory, in listing order.\<close>

definition dir_names :: "(string \<times> node) list \<Rightarrow> string list" where
  "dir_names es = map fst (filter (\<lambda>(n, m). is_dir (Some m)) es)"

text \<open>A tree is well formed when no directory lists a name twice.\<close>

fun wf :: "node \<Rightarrow> bool" where
  "wf (File x) = True"
| "wf (Dir es) = (distinct (map fst es) \<and> (\<forall>m \<in> snd ` set es. wf m))"

text \<open>
  A plain path segment is a name: not empty, not \<open>.\<close> and not \<open>..\<close>.
\<close>

definition plain :: "string \<Rightarrow> bool" where
  "plain s = (s \<noteq> [] \<and> s \<noteq> ''.'' \<and> s \<noteq> ''..'')"


section \<open>Example inputs\<close>

text \<open>
  A small machine: the package with its payload under \<open>/pkg\<close>, a user \<open>u\<close> with a
  project directory, and \<open>/tmp\<close>. The payload has two skills and one plain file.
\<close>

definition fs_demo :: node where
  "fs_demo =
     Dir [(''pkg'', Dir [(''bin'', Dir [(''install.js'', File ''js'')]),
                        (''skills'', Dir [(''alpha'', Dir [(''SKILL.md'', File ''A'')]),
                                          (''NOTES'', File ''n''),
                                          (''beta'', Dir [(''SKILL.md'', File ''B'')])])]),
          (''home'', Dir [(''u'', Dir [(''proj'', Dir [])])]),
          (''tmp'', Dir [])]"

definition js_demo :: js_env where
  "js_demo = \<lparr>argv = [''node'', ''/pkg/bin/install.js''], env_HOME = Some ''/home/u'',
               env_USERPROFILE = None, cwd = ''/home/u/proj'', dirname = ''/pkg/bin''\<rparr>"

definition js_global_no_home :: js_env where
  "js_global_no_home =
     \<lparr>argv = [''node'', ''/pkg/bin/install.js'', ''--global''], env_HOME = None,
      env_USERPROFILE = None, cwd = ''/home/u/proj'', dirname = ''/pkg/bin''\<rparr>"

definition js_no_payload :: js_env where
  "js_no_payload =
     \<lparr>argv = [''node'', ''/opt/bin/install.js''], env_HOME = Some ''/home/u'',
      env_USERPROFILE = None, cwd = ''/home/u/proj'', dirname = ''/opt/bin''\<rparr>"

text \<open>
  Runs of the script in the C locale (names ordered by byte value): a clone with two
  skills, a fetch that fails, and a clone whose \<open>skills\<close> directory holds no
  directory at all.
\<close>

definition sh_demo :: sh_env where
  "sh_demo =
     \<lparr>sh_args = [], sh_HOME = Some ''/home/u'', sh_pwd = ''/home/u/proj'',
      mktemp_name = ''/tmp/tmp.Xq1'',
      remote = Some [(''skills'', Dir [(''beta'', Dir [(''SKILL.md'', File ''B'')]),
                                       (''alpha'', Dir [(''SKILL.md'', File ''A'')])]),
                     (''README.md'', File ''readme'')],
      cp_kind = GNU, collate = (\<lambda>a b. a \<le> b)\<rparr>"

definition sh_fetch_fails :: sh_env where
  "sh_fetch_fails =
     \<lparr>sh_args = [], sh_HOME = Some ''/home/u'', sh_pwd = ''/home/u/proj'',
      mktemp_name = ''/tmp/tmp.Xq1'', remote = None, cp_kind = GNU, collate = (\<lambda>a b. a \<le> b)\<rparr>"


text \<open>The same machine with a payload directory that holds a plain file only.\<close>

definition fs_flat :: node where
  "fs_flat =
     Dir [(''pkg'', Dir [(''bin'', Dir [(''install.js'', File ''js'')]),
                        (''skills'', Dir [(''NOTES'', File ''n'')])]),
          (''home'', Dir [(''u'', Dir [(''proj'', Dir [])])]),
          (''tmp'', Dir [])]"

text \<open>
  A payload with a skill and a directory whose name begins with a dot, once next to the
  local installer and once as the clone of the remote one.
\<close>

definition fs_dot :: node where
  "fs_dot =
     Dir [(''pkg'', Dir [(''bin'', Dir [(''install.js'', File ''js'')]),
                        (''skills'', Dir [(''.drafts'', Dir [(''SKILL.md'', File ''D'')]),
                                          (''alpha'', Dir [(''SKILL.md'', File ''A'')])])]),
          (''home'', Dir [(''u'', Dir [(''proj'', Dir [])])]),
          (''tmp'', Dir [])]"

definition sh_dot :: sh_env where
  "sh_dot =
     \<lparr>sh_args = [], sh_HOME = Some ''/home/u'', sh_pwd = ''/home/u/proj'',
      mktemp_name = ''/tmp/tmp.Xq1'',
      remote = Some [(''skills'', Dir [(''.drafts'', Dir [(''SKILL.md'', File ''D'')]),
                                       (''alpha'', Dir [(''SKILL.md'', File ''A'')])])],
      cp_kind = GNU, collate = (\<lambda>a b. a \<le> b)\<rparr>"

text \<open>
  The user's project already has skills installed: a directory \<open>mine\<close> of the user's
  own, and an older \<open>alpha\<close> with a file \<open>local.md\<close> that the payload does not have.
\<close>

definition fs_stale :: node where
  "fs_stale =
     Dir [(''pkg'', Dir [(''bin'', Dir [(''install.js'', File ''js'')]),
                        (''skills'', Dir [(''alpha'', Dir [(''SKILL.md'', File ''A'')]),
                                          (''NOTES'', File ''n''),
                                          (''beta'', Dir [(''SKILL.md'', File ''B'')])])]),
          (''home'', Dir [(''u'', Dir [(''proj'', Dir [(''.claude'', Dir [(''skills'',
              Dir [(''mine'', Dir [(''SKILL.md'', File ''M'')]),
                   (''alpha'', Dir [(''SKILL.md'', File ''old''),
                                    (''local.md'', File ''L'')])])])])])]),
          (''tmp'', Dir [])]"

text \<open>Runs with the \<open>--global\<close> flag.\<close>

definition js_global :: js_env where
  "js_global =
     \<lparr>argv = [''node'', ''/pkg/bin/install.js'', ''--global''], env_HOME = Some ''/home/u'',
      env_USERPROFILE = None, cwd = ''/home/u/proj'', dirname = ''/pkg/bin''\<rparr>"

definition sh_global :: sh_env where
  "sh_global =
     \<lparr>sh_args = [''--global''], sh_HOME = Some ''/home/u'', sh_pwd = ''/home/u/proj'',
      mktemp_name = ''/tmp/tmp.Xq1'',
      remote = Some [(''skills'', Dir [(''alpha'', Dir [(''SKILL.md'', File ''A'')])])],
      cp_kind = GNU, collate = (\<lambda>a b. a \<le> b)\<rparr>"

text \<open>
  A project directory whose name ends in a newline, next to one of the same name without
  it, and both installers run in the former without a flag.
\<close>

definition fs_nl :: node where
  "fs_nl =
     Dir [(''pkg'', Dir [(''bin'', Dir [(''install.js'', File ''js'')]),
                        (''skills'', Dir [(''alpha'', Dir [(''SKILL.md'', File ''A'')])])]),
          (''home'', Dir [(''u'', Dir [(''proj'', Dir []),
                                      (''proj'' @ [CHR 0x0A], Dir [])])]),
          (''tmp'', Dir [])]"

definition js_nl :: js_env where
  "js_nl = \<lparr>argv = [''node'', ''/pkg/bin/install.js''], env_HOME = Some ''/home/u'',
             env_USERPROFILE = None, cwd = ''/home/u/proj'' @ [CHR 0x0A],
             dirname = ''/pkg/bin''\<rparr>"

definition sh_nl :: sh_env where
  "sh_nl =
     \<lparr>sh_args = [], sh_HOME = Some ''/home/u'', sh_pwd = ''/home/u/proj'' @ [CHR 0x0A],
      mktemp_name = ''/tmp/tmp.Xq1'',
      remote = Some [(''skills'', Dir [(''alpha'', Dir [(''SKILL.md'', File ''A'')])])],
      cp_kind = GNU, collate = (\<lambda>a b. a \<le> b)\<rparr>"

text \<open>Runs with the \<open>--global\<close> flag and \<open>HOME\<close> set to the empty string.\<close>

definition js_home_empty :: js_env where
  "js_home_empty =
     \<lparr>argv = [''node'', ''/pkg/bin/install.js'', ''--global''], env_HOME = Some '''',
      env_USERPROFILE = None, cwd = ''/home/u/proj'', dirname = ''/pkg/bin''\<rparr>"

definition sh_home_empty :: sh_env where
  "sh_home_empty =
     \<lparr>sh_args = [''--global''], sh_HOME = Some '''', sh_pwd = ''/home/u/proj'',
      mktemp_name = ''/tmp/tmp.Xq1'',
      remote = Some [(''skills'', Dir [(''alpha'', Dir [(''SKILL.md'', File ''A'')])])],
      cp_kind = GNU, collate = (\<lambda>a b. a \<le> b)\<rparr>"

section \<open>Properties of the file system operations\<close>

lemma lookup_append:
  "lookup n (p @ q) = (case lookup n p of None \<Rightarrow> None | Some m \<Rightarrow> lookup m q)"
proof (induction p arbitrary: n)
  case Nil
  show ?case by simp
next
  case (Cons c p)
  show ?case
  proof (cases n)
    case (File x)
    then show ?thesis by simp
  next
    case (Dir es)
    then show ?thesis using Cons.IH by (simp split: option.splits)
  qed
qed

lemma lookup_None_append: "lookup n p = None \<Longrightarrow> lookup n (p @ q) = None"
  by (simp add: lookup_append)

lemma alter_other:
  "\<not> prefix p q \<Longrightarrow> \<not> prefix q p \<Longrightarrow> lookup (fst (alter p f n)) q = lookup n q"
proof (induction p f n arbitrary: q rule: alter.induct)
  case (1 f n)
  then show ?case by simp
next
  case (2 c p f x)
  then show ?case by simp
next
  case (3 c f es)
  then obtain c' q' where q: "q = c' # q'" by (cases q) auto
  with 3 have "c' \<noteq> c" by auto
  then show ?case
    by (simp add: q update_conv' delete_conv' case_prod_beta split: option.splits)
next
  case (4 c d p f es)
  then obtain c' q' where q: "q = c' # q'" by (cases q) auto
  show ?case
  proof (cases "map_of es c")
    case None
    then show ?thesis by simp
  next
    case (Some m)
    show ?thesis
    proof (cases "c' = c")
      case True
      with 4 q have "\<not> prefix (d # p) q'" "\<not> prefix q' (d # p)" by auto
      from "4.IH"[OF Some this] show ?thesis
        using Some True q by (simp add: update_conv' case_prod_beta)
    next
      case False
      then show ?thesis using Some q by (simp add: update_conv' case_prod_beta)
    qed
  qed
qed

lemma alter_at:
  "p \<noteq> [] \<Longrightarrow> is_dir (lookup n (butlast p)) \<Longrightarrow>
     lookup (fst (alter p f n)) p = fst (f (lookup n p)) \<and> snd (alter p f n) = snd (f (lookup n p))"
proof (induction p f n rule: alter.induct)
  case (1 f n)
  then show ?case by simp
next
  case (2 c p f x)
  then show ?case by (cases p) (simp_all add: is_dir_def)
next
  case (3 c f es)
  show ?case by (simp add: update_conv' delete_conv' case_prod_beta split: option.splits)
next
  case (4 c d p f es)
  show ?case
  proof (cases "map_of es c")
    case None
    with 4 show ?thesis by (simp add: is_dir_def)
  next
    case (Some m)
    with 4 have "is_dir (lookup m (butlast (d # p)))" by simp
    from "4.IH"[OF Some _ this] show ?thesis
      using Some by (simp add: update_conv' case_prod_beta)
  qed
qed


lemma alter_absent_rm:
  "lookup n p = None \<Longrightarrow> rm_rf p (fst (alter p f n)) = n"
  unfolding rm_rf_def
proof (induction p f n rule: alter.induct)
  case (1 f n)
  then show ?case by simp
next
  case (2 c p f x)
  then show ?case by simp
next
  case (3 c f es)
  then have "map_of es c = None" by (simp split: option.splits)
  then have "c \<notin> fst ` set es" by (simp add: map_of_eq_None_iff)
  then show ?case
    by (simp add: delete_update_same case_prod_beta split: option.splits)
next
  case (4 c d p f es)
  show ?case
  proof (cases "map_of es c")
    case None
    then show ?thesis by simp
  next
    case (Some m)
    with 4 have "lookup m (d # p) = None" by simp
    from "4.IH"[OF Some this] show ?thesis
      using Some by (simp add: update_conv' update_triv case_prod_beta)
  qed
qed


lemma apart_sym: "apart p q \<Longrightarrow> apart q p"
  by (auto simp: apart_def)

lemma prefix_comparable: "prefix a c \<Longrightarrow> prefix b c \<Longrightarrow> prefix a b \<or> prefix b a"
  by (metis prefix_same_cases)

lemma apart_append:
  assumes "apart p q"
  shows "apart (p @ x) (q @ y)"
proof -
  have "\<not> prefix (a @ u) (b @ v)" if ab: "\<not> prefix a b" "\<not> prefix b a" for a b u v :: path
  proof
    assume "prefix (a @ u) (b @ v)"
    then have "prefix a (b @ v)" by (rule append_prefixD)
    moreover have "prefix b (b @ v)" by simp
    ultimately have "prefix a b \<or> prefix b a" by (rule prefix_same_cases)
    with ab show False by simp
  qed
  with assms show ?thesis by (simp add: apart_def)
qed

lemma apart_appendL: "apart p q \<Longrightarrow> apart (p @ x) q"
  using apart_append[of p q x "[]"] by simp


lemma alter_apart: "apart p q \<Longrightarrow> lookup (fst (alter p f n)) q = lookup n q"
  by (simp add: apart_def alter_other)


lemma alter_ok_parent:
  "snd (alter p f n) = None \<Longrightarrow> p \<noteq> [] \<and> is_dir (lookup n (butlast p))"
proof (induction p f n rule: alter.induct)
  case (1 f n)
  then show ?case by simp
next
  case (2 c p f x)
  then show ?case by simp
next
  case (3 c f es)
  show ?case by (simp add: is_dir_def)
next
  case (4 c d p f es)
  then show ?case by (cases "map_of es c") (simp_all add: case_prod_beta)
qed

lemma alter_ok:
  assumes "snd (alter p f n) = None"
  shows "p \<noteq> []" and "snd (f (lookup n p)) = None"
    and "lookup (fst (alter p f n)) p = fst (f (lookup n p))"
  using alter_ok_parent[OF assms] alter_at[of p n f] assms by simp_all

lemma alter_below:
  assumes "snd (alter p f n) = None"
  shows "lookup (fst (alter p f n)) (p @ q) =
           (case fst (f (lookup n p)) of None \<Rightarrow> None | Some m \<Rightarrow> lookup m q)"
  using alter_ok(3)[OF assms] by (simp add: lookup_append)

lemma mktemp_d_ok:
  assumes "mktemp_d p n = (n', None)"
  shows "p \<noteq> []" and "lookup n p = None" and "lookup n' p = Some (Dir [])"
proof -
  let ?f = "\<lambda>d. case d of None \<Rightarrow> (Some (Dir []), None) | Some n \<Rightarrow> (Some n, Some EEXIST)"
  have ok: "snd (alter p ?f n) = None" using assms by (simp add: mktemp_d_def)
  show "p \<noteq> []" using alter_ok(1)[OF ok] .
  show none: "lookup n p = None"
    using alter_ok(2)[OF ok] by (cases "lookup n p") simp_all
  show "lookup n' p = Some (Dir [])"
    using alter_ok(3)[OF ok] assms none by (simp add: mktemp_d_def)
qed

lemma mktemp_d_rm: "lookup n p = None \<Longrightarrow> rm_rf p (fst (mktemp_d p n)) = n"
  by (simp add: mktemp_d_def alter_absent_rm)




lemma lookup_fresh_dirs:
  "lookup (fresh_dirs p) q = (if prefix q p then Some (fresh_dirs (drop (length q) p)) else None)"
proof (induction p arbitrary: q)
  case Nil
  show ?case by (cases q) simp_all
next
  case (Cons c p)
  show ?case
  proof (cases q)
    case Nil
    then show ?thesis by simp
  next
    case (Cons c' q')
    then show ?thesis using Cons.IH[of q'] by simp
  qed
qed

lemma mkdir_p_other:
  "mkdir_p T n = Inr n' \<Longrightarrow> \<not> prefix q T \<Longrightarrow> lookup n' q = lookup n q"
proof (induction T n arbitrary: n' q rule: mkdir_p.induct)
  case (1 es)
  then show ?case by simp
next
  case (2 x)
  then show ?case by simp
next
  case (3 c p x)
  then show ?case by simp
next
  case (4 c p es)
  from "4.prems"(2) obtain c' q' where q: "q = c' # q'" by (cases q) auto
  show ?case
  proof (cases "map_of es c")
    case None
    with "4.prems" q show ?thesis
      by (auto simp: update_conv' lookup_fresh_dirs)
  next
    case (Some m)
    with "4.prems"(1) obtain m' where m': "mkdir_p p m = Inr m'"
      and n': "n' = Dir (AList.update c m' es)"
      by (auto split: sum.splits)
    show ?thesis
    proof (cases "c' = c")
      case True
      with "4.prems"(2) q have "\<not> prefix q' p" by simp
      from "4.IH"[OF Some m' this] show ?thesis
        using Some True q n' by (simp add: update_conv')
    next
      case False
      then show ?thesis using q n' by (simp add: update_conv')
    qed
  qed
qed

lemma mkdir_p_is_dir: "mkdir_p T n = Inr n' \<Longrightarrow> is_dir (lookup n' T)"
proof (induction T n arbitrary: n' rule: mkdir_p.induct)
  case (1 es)
  then show ?case by (auto simp: is_dir_def)
next
  case (2 x)
  then show ?case by simp
next
  case (3 c p x)
  then show ?case by simp
next
  case (4 c p es)
  show ?case
  proof (cases "map_of es c")
    case None
    with "4.prems" show ?thesis
      by (auto simp: update_conv' lookup_fresh_dirs is_dir_def)
  next
    case (Some m)
    with "4.prems"(1) obtain m' where m': "mkdir_p p m = Inr m'"
      and n': "n' = Dir (AList.update c m' es)"
      by (auto split: sum.splits)
    from "4.IH"[OF Some m'] show ?thesis using n' by (simp add: update_conv')
  qed
qed

lemma mkdir_p_existing:
  "lookup n T = Some d \<Longrightarrow> mkdir_p T n = (case d of Dir es \<Rightarrow> Inr n | File x \<Rightarrow> Inl EEXIST)"
proof (induction T n rule: mkdir_p.induct)
  case (1 es)
  then show ?case by auto
next
  case (2 x)
  then show ?case by auto
next
  case (3 c p x)
  then show ?case by simp
next
  case (4 c p es)
  then obtain m where m: "map_of es c = Some m" and l: "lookup m p = Some d"
    by (auto split: option.splits)
  from "4.IH"[OF m l] show ?case
    using m by (cases d) (simp_all add: update_triv)
qed

lemma mkdir_p_created:
  "mkdir_p T n = Inr n' \<Longrightarrow> lookup n T = None \<Longrightarrow> lookup n' T = Some (Dir [])"
proof (induction T n arbitrary: n' rule: mkdir_p.induct)
  case (1 es)
  then show ?case by simp
next
  case (2 x)
  then show ?case by simp
next
  case (3 c p x)
  then show ?case by simp
next
  case (4 c p es)
  show ?case
  proof (cases "map_of es c")
    case None
    with "4.prems" show ?thesis
      by (auto simp: update_conv' lookup_fresh_dirs)
  next
    case (Some m)
    with "4.prems"(1) obtain m' where m': "mkdir_p p m = Inr m'"
      and n': "n' = Dir (AList.update c m' es)"
      by (auto split: sum.splits)
    from "4.prems"(2) Some have "lookup m p = None" by simp
    from "4.IH"[OF Some m' this] show ?thesis using n' by (simp add: update_conv')
  qed
qed

section \<open>The runs, step by step\<close>

lemma install_sh_unbound:
  "TARGET se = Inl err \<Longrightarrow>
     install_sh se fs = \<lparr>disk = fs, stdout = [], stderr = [Diagnostic ''bash'' err], exit_code = 1\<rparr>"
  by (simp add: install_sh_def)

lemma install_sh_mktemp_failed:
  "TARGET se = Inr t \<Longrightarrow> mktemp_d (tree_path (sh_pwd se) (mktemp_name se)) fs = (fs1, Some err) \<Longrightarrow>
     install_sh se fs = \<lparr>disk = fs, stdout = [], stderr = [Diagnostic ''mktemp'' err], exit_code = 1\<rparr>"
  by (simp add: install_sh_def)

lemma install_sh_trapped:
  "TARGET se = Inr t \<Longrightarrow> mktemp_d (tree_path (sh_pwd se) (mktemp_name se)) fs = (fs1, None) \<Longrightarrow>
     install_sh se fs =
       (sh_body se t (tree_path (sh_pwd se) (mktemp_name se)) fs1)
         \<lparr>disk := rm_rf (tree_path (sh_pwd se) (mktemp_name se))
                    (disk (sh_body se t (tree_path (sh_pwd se) (mktemp_name se)) fs1))\<rparr>"
  by (simp add: install_sh_def Let_def)

lemma sh_body_fetch_failed:
  "remote se = None \<Longrightarrow>
     sh_body se t tmp fs1 =
       \<lparr>disk = fs1, stdout = ['''', ''Cloning Next.js Claude skills...''],
        stderr = [Diagnostic ''git'' FETCH_FAILED], exit_code = 128\<rparr>"
  by (simp add: sh_body_def)

lemma fetch_failure_leaves_disk:
  assumes "remote se = None"
  shows "disk (install_sh se fs) = fs \<and> stderr (install_sh se fs) \<noteq> [] \<and>
         exit_code (install_sh se fs) \<noteq> 0"
proof (cases "TARGET se")
  case (Inl err)
  then show ?thesis by (simp add: install_sh_unbound)
next
  case (Inr t)
  let ?tmp = "tree_path (sh_pwd se) (mktemp_name se)"
  obtain fs1 e where mk: "mktemp_d ?tmp fs = (fs1, e)" by (cases "mktemp_d ?tmp fs")
  show ?thesis
  proof (cases e)
    case (Some err)
    with Inr mk show ?thesis by (simp add: install_sh_mktemp_failed)
  next
    case None
    with mk have ok: "mktemp_d ?tmp fs = (fs1, None)" by simp
    have "rm_rf ?tmp fs1 = fs"
      using mktemp_d_rm[OF mktemp_d_ok(2)[OF ok]] ok by simp
    then show ?thesis
      by (simp add: install_sh_trapped[OF Inr ok] sh_body_fetch_failed[OF assms])
  qed
qed

lemma js_no_payload_path:
  "tree_path (cwd js_no_payload) (skillsSource js_no_payload) = [''opt'', ''skills'']"
  by (simp add: js_no_payload_def skillsSource_def path_resolve_def tree_path_def is_absolute_def)









lemma apart_not_prefix_append: "apart p q \<Longrightarrow> \<not> prefix (p @ x) q"
  using apart_appendL[of p q x] by (simp add: apart_def)




lemma js_demo_paths:
  "tree_path (cwd js_demo) (skillsSource js_demo) = [''pkg'', ''skills'']"
  "targetBase js_demo = Inr ''/home/u/proj/.claude/skills''"
  "tree_path (cwd js_demo) ''/home/u/proj/.claude/skills'' = [''home'', ''u'', ''proj'', ''.claude'', ''skills'']"
  by (simp_all add: js_demo_def skillsSource_def path_resolve_def tree_path_def is_absolute_def
      targetBase_def isGlobal_def path_join_def normalize_def trailing_slash_def)


section \<open>Properties of the recursive copy\<close>

lemma wf_lookup: "wf n \<Longrightarrow> lookup n p = Some m \<Longrightarrow> wf m"
proof (induction p arbitrary: n)
  case Nil
  then show ?case by simp
next
  case (Cons c p)
  show ?case
  proof (cases n)
    case (File x)
    with Cons.prems show ?thesis by simp
  next
    case (Dir es)
    with Cons.prems obtain k where k: "map_of es c = Some k" and l: "lookup k p = Some m"
      by (auto split: option.splits)
    from k have "k \<in> snd ` set es" by (metis map_of_SomeD snd_conv image_eqI)
    with Cons.prems(1) Dir have "wf k" by auto
    from Cons.IH[OF this l] show ?thesis .
  qed
qed

lemma cp_entries_step:
  assumes "cp_entries stop ((n0, s0) # ses) des = (des', None)"
  shows "snd (cp_node stop s0 (map_of des n0)) = None \<and>
         cp_entries stop ses (AList.update n0 (fst (cp_node stop s0 (map_of des n0))) des) = (des', None)"
proof -
  obtain d0 e0 where c0: "cp_node stop s0 (map_of des n0) = (d0, e0)"
    by (cases "cp_node stop s0 (map_of des n0)")
  obtain des1 e1 where c1: "cp_entries stop ses (AList.update n0 d0 des) = (des1, e1)"
    by (cases "cp_entries stop ses (AList.update n0 d0 des)")
  have "e0 = None \<and> e1 = None \<and> des1 = des'"
  proof (cases "stop \<and> e0 \<noteq> None")
    case True
    with assms c0 show ?thesis by simp
  next
    case False
    with assms c0 c1 have "(des1, case e0 of None \<Rightarrow> e1 | Some x \<Rightarrow> Some x) = (des', None)"
      by auto
    then show ?thesis by (auto split: option.splits)
  qed
  with c0 c1 show ?thesis by simp
qed

lemma cp_entries_pointwise:
  assumes "cp_entries stop ses des = (des', None)" and "distinct (map fst ses)"
  shows "map_of des' c =
           (case map_of ses c of
              None \<Rightarrow> map_of des c
            | Some s \<Rightarrow> Some (fst (cp_node stop s (map_of des c))))"
  using assms
proof (induction ses arbitrary: des)
  case Nil
  then show ?case by simp
next
  case (Cons a ses)
  obtain n0 s0 where a: "a = (n0, s0)" by (cases a)
  note st = cp_entries_step[OF Cons.prems(1)[unfolded a]]
  from Cons.prems(2) a have dist: "distinct (map fst ses)" and nin: "n0 \<notin> fst ` set ses" by auto
  from nin have m0: "map_of ses n0 = None" by (simp add: map_of_eq_None_iff)
  note ih = Cons.IH[OF conjunct2[OF st] dist]
  show ?case
  proof (cases "c = n0")
    case True
    with ih m0 a show ?thesis by (simp add: update_conv')
  next
    case False
    with ih a show ?thesis by (simp add: update_conv' split: option.splits)
  qed
qed

lemma cp_entries_each_ok:
  assumes "cp_entries stop ses des = (des', None)" and "distinct (map fst ses)"
    and "map_of ses c = Some s"
  shows "snd (cp_node stop s (map_of des c)) = None"
  using assms
proof (induction ses arbitrary: des)
  case Nil
  then show ?case by simp
next
  case (Cons a ses)
  obtain n0 s0 where a: "a = (n0, s0)" by (cases a)
  note st = cp_entries_step[OF Cons.prems(1)[unfolded a]]
  from Cons.prems(2) a have dist: "distinct (map fst ses)" and nin: "n0 \<notin> fst ` set ses" by auto
  show ?case
  proof (cases "c = n0")
    case True
    with Cons.prems(3) a have "s = s0" by simp
    then show ?thesis using True st by simp
  next
    case False
    with Cons.prems(3) a have "map_of ses c = Some s" by simp
    from Cons.IH[OF conjunct2[OF st] dist this] False show ?thesis by (simp add: update_conv')
  qed
qed

lemma cp_node_File_ok:
  assumes "cp_node stop (File x) d = (d', None)"
  shows "d' = File x \<and> (d = None \<or> (\<exists>y. d = Some (File y)))"
proof (cases d)
  case None
  with assms show ?thesis by simp
next
  case (Some dn)
  with assms show ?thesis by (cases dn) simp_all
qed

lemma cp_node_Dir_ok:
  assumes "cp_node stop (Dir ses) d = (d', None)"
  shows "\<exists>des'. d' = Dir des' \<and>
           cp_entries stop ses (case d of Some (Dir xs) \<Rightarrow> xs | _ \<Rightarrow> []) = (des', None) \<and>
           (d = None \<or> (\<exists>xs. d = Some (Dir xs)))"
proof (cases d)
  case None
  with assms show ?thesis by (auto split: prod.splits)
next
  case (Some dn)
  with assms show ?thesis by (cases dn) (auto split: prod.splits)
qed

text \<open>
  What a successful copy of a well-formed tree \<open>s\<close> onto \<open>d\<close> leaves at a path \<open>q\<close>:
  the file of \<open>s\<close> where \<open>s\<close> has a file, a directory where \<open>s\<close> has a directory, and
  what \<open>d\<close> had where \<open>s\<close> has nothing.
\<close>

lemma cp_node_lookup:
  assumes "wf s" and "cp_node stop s d = (d', None)"
  shows "(\<forall>c. lookup s q = Some (File c) \<longrightarrow> lookup d' q = Some (File c)) \<and>
         (is_dir (lookup s q) \<longrightarrow> is_dir (lookup d' q)) \<and>
         (lookup s q = None \<longrightarrow> lookup d' q = (case d of None \<Rightarrow> None | Some x \<Rightarrow> lookup x q))"
  using assms
proof (induction q arbitrary: s d d')
  case Nil
  show ?case
  proof (cases s)
    case (File x)
    with cp_node_File_ok[of stop x d d'] Nil.prems(2) show ?thesis by (simp add: is_dir_def)
  next
    case (Dir ses)
    with cp_node_Dir_ok[of stop ses d d'] Nil.prems(2) show ?thesis by (auto simp: is_dir_def)
  qed
next
  case (Cons c q)
  show ?case
  proof (cases s)
    case (File x)
    with cp_node_File_ok[of stop x d d'] Cons.prems(2)
    have "d' = File x" and "d = None \<or> (\<exists>y. d = Some (File y))" by simp_all
    then show ?thesis using File by (auto simp: is_dir_def)
  next
    case (Dir ses)
    define des where "des = (case d of Some (Dir xs) \<Rightarrow> xs | _ \<Rightarrow> [])"
    from cp_node_Dir_ok[of stop ses d d'] Cons.prems(2) Dir obtain des' where
      ce: "cp_entries stop ses des = (des', None)" and d': "d' = Dir des'"
      and dd: "d = None \<or> (\<exists>xs. d = Some (Dir xs))"
      unfolding des_def by auto
    from Cons.prems(1) Dir have dist: "distinct (map fst ses)"
      and wfs: "\<And>m. m \<in> snd ` set ses \<Longrightarrow> wf m" by auto
    have old: "(case d of None \<Rightarrow> None | Some x \<Rightarrow> lookup x (c # q))
                 = (case map_of des c of None \<Rightarrow> None | Some m \<Rightarrow> lookup m q)"
      using dd by (auto simp: des_def)
    show ?thesis
    proof (cases "map_of ses c")
      case None
      with cp_entries_pointwise[OF ce dist, of c]
      have "map_of des' c = map_of des c" by simp
      then show ?thesis using None Dir d' old by (simp add: is_dir_def)
    next
      case (Some m)
      then have "m \<in> snd ` set ses" by (metis map_of_SomeD snd_conv image_eqI)
      then have wm: "wf m" by (rule wfs)
      obtain k where k: "cp_node stop m (map_of des c) = (k, None)"
        using cp_entries_each_ok[OF ce dist Some]
        by (cases "cp_node stop m (map_of des c)") simp
      have "map_of des' c = Some k"
        using cp_entries_pointwise[OF ce dist, of c] Some k by simp
      then show ?thesis
        using Cons.IH[OF wm k] Some Dir d' old by (simp split: option.splits)
    qed
  qed
qed

section \<open>Properties of the copy loop and of successful runs\<close>

lemma apart_siblings: "a \<noteq> k \<Longrightarrow> apart (T @ [a]) (T @ k # q)"
  by (simp add: apart_def)

lemma cpSync_apart: "apart dest q \<Longrightarrow> lookup (fst (cpSync src dest n)) q = lookup n q"
  by (simp add: cpSync_def alter_apart split: option.splits)


lemma cpSync_ok:
  assumes "cpSync src dest n = (n', None)"
  shows "\<exists>s. lookup n src = Some s \<and> snd (cp_node True s (lookup n dest)) = None \<and>
             (\<forall>q. lookup n' (dest @ q) = lookup (fst (cp_node True s (lookup n dest))) q)"
proof -
  from assms obtain s where s: "lookup n src = Some s" and np: "\<not> prefix src dest"
    by (auto simp: cpSync_def split: option.splits if_splits)
  let ?f = "\<lambda>d. case cp_node True s d of (n, e) \<Rightarrow> (Some n, e)"
  from assms s np have al: "alter dest ?f n = (n', None)" by (simp add: cpSync_def)
  then have ok: "snd (alter dest ?f n) = None" by simp
  have "snd (cp_node True s (lookup n dest)) = None"
    using alter_ok(2)[OF ok] by (simp add: case_prod_beta)
  moreover have "lookup n' (dest @ q) = lookup (fst (cp_node True s (lookup n dest))) q" for q
    using alter_below[OF ok, of q] al by (simp add: case_prod_beta)
  ultimately show ?thesis using s by blast
qed

lemma copy_loop_out:
  "copy_loop copy g S T names (fs, out, i) = ((fs', out', i'), None) \<Longrightarrow>
     out' = out @ map ((@) g) names \<and> i' = i + length names"
proof (induction names arbitrary: fs out i)
  case Nil
  then show ?case by simp
next
  case (Cons a names)
  obtain fs1 e1 where c: "copy (S @ [a]) (T @ [a]) fs = (fs1, e1)"
    by (cases "copy (S @ [a]) (T @ [a]) fs")
  with Cons.prems have e1: "e1 = None" by (cases e1) simp_all
  with Cons.prems c have
    "copy_loop copy g S T names (fs1, out @ [g @ a], i + 1) = ((fs', out', i'), None)" by simp
  from Cons.IH[OF this] show ?case by simp
qed

lemma copy_loop_frame:
  assumes frame: "\<And>src dest n. apart dest q \<Longrightarrow> lookup (fst (copy src dest n)) q = lookup n q"
    and "\<forall>k \<in> set names. apart (T @ [k]) q"
    and "copy_loop copy g S T names (fs, out, i) = ((fs', out', i'), e)"
  shows "lookup fs' q = lookup fs q"
  using assms(2,3)
proof (induction names arbitrary: fs out i)
  case Nil
  then show ?case by simp
next
  case (Cons a names)
  obtain fs1 e1 where c: "copy (S @ [a]) (T @ [a]) fs = (fs1, e1)"
    by (cases "copy (S @ [a]) (T @ [a]) fs")
  from Cons.prems(1) have "apart (T @ [a]) q" by simp
  from frame[OF this, of "S @ [a]" fs] c have f1: "lookup fs1 q = lookup fs q" by simp
  show ?case
  proof (cases e1)
    case (Some err)
    with Cons.prems(2) c have "fs' = fs1" by simp
    with f1 show ?thesis by simp
  next
    case None
    with Cons.prems(2) c have
      "copy_loop copy g S T names (fs1, out @ [g @ a], i + 1) = ((fs', out', i'), e)" by simp
    from Cons.IH[OF _ this] Cons.prems(1) f1 show ?thesis by simp
  qed
qed

text \<open>
  In a loop that succeeds, over distinct names and with source and destination apart, the
  copy of skill \<open>k\<close> reads the source as it was at the start, writes onto the destination
  entry as it was at the start, and what it leaves at the destination stays to the end.
\<close>

lemma copy_loop_step:
  assumes frame: "\<And>src dest n q. apart dest q \<Longrightarrow> lookup (fst (copy src dest n)) q = lookup n q"
    and "distinct names" and ap: "apart S T" and "k \<in> set names"
    and "copy_loop copy g S T names (fs, out, i) = ((fs', out', i'), None)"
  shows "\<exists>n n'. copy (S @ [k]) (T @ [k]) n = (n', None) \<and>
           (\<forall>q. lookup n (S @ k # q) = lookup fs (S @ k # q)) \<and>
           (\<forall>q. lookup n (T @ k # q) = lookup fs (T @ k # q)) \<and>
           (\<forall>q. lookup fs' (T @ k # q) = lookup n' (T @ k # q))"
  using assms(2,4,5)
proof (induction names arbitrary: fs out i)
  case Nil
  then show ?case by simp
next
  case (Cons a names)
  obtain fs1 e1 where c: "copy (S @ [a]) (T @ [a]) fs = (fs1, e1)"
    by (cases "copy (S @ [a]) (T @ [a]) fs")
  with Cons.prems(3) have e1: "e1 = None" by (cases e1) simp_all
  with Cons.prems(3) c have rest:
    "copy_loop copy g S T names (fs1, out @ [g @ a], i + 1) = ((fs', out', i'), None)" by simp
  from Cons.prems(1) have dist: "distinct names" and anin: "a \<notin> set names" by auto
  show ?case
  proof (cases "k = a")
    case True
    have "lookup fs' (T @ k # q) = lookup fs1 (T @ k # q)" for q
    proof (rule copy_loop_frame[OF _ _ rest])
      show "lookup (fst (copy src dest n)) (T @ k # q) = lookup n (T @ k # q)"
        if "apart dest (T @ k # q)" for src dest n
        using frame[OF that] .
      show "\<forall>k' \<in> set names. apart (T @ [k']) (T @ k # q)"
        using anin True by (auto intro: apart_siblings)
    qed
    with c e1 True show ?thesis by auto
  next
    case False
    with Cons.prems(2) have "k \<in> set names" by simp
    from Cons.IH[OF dist this rest] obtain n n' where
      1: "copy (S @ [k]) (T @ [k]) n = (n', None)"
      and 2: "\<And>q. lookup n (S @ k # q) = lookup fs1 (S @ k # q)"
      and 3: "\<And>q. lookup n (T @ k # q) = lookup fs1 (T @ k # q)"
      and 4: "\<And>q. lookup fs' (T @ k # q) = lookup n' (T @ k # q)"
      by blast
    have "apart (T @ [a]) (S @ k # q)" for q
      using apart_append[OF apart_sym[OF ap], of "[a]" "k # q"] .
    from frame[OF this, of "S @ [a]" fs] c
    have 5: "lookup fs1 (S @ k # q) = lookup fs (S @ k # q)" for q by simp
    have "apart (T @ [a]) (T @ k # q)" for q
      using False by (auto intro: apart_siblings)
    from frame[OF this, of "S @ [a]" fs] c
    have 6: "lookup fs1 (T @ k # q) = lookup fs (T @ k # q)" for q by simp
    from 1 2 3 4 5 6 show ?thesis by auto
  qed
qed

lemma readdir_dir_names:
  "map fst (filter snd (map (\<lambda>(n, m). (n, is_dir (Some m))) es)) = dir_names es"
  by (induction es) (auto simp: dir_names_def)

lemma install_js_steps:
  assumes "targetBase e = Inr t"
    and "lookup fs (tree_path (cwd e) (skillsSource e)) = Some (Dir es)"
  shows "install_js e fs =
     (if dir_names es = [] then
        \<lparr>disk = fs, stdout = [],
         stderr = [Text (''Error: No skill directories found in '' @ skillsSource e)],
         exit_code = 1\<rparr>
      else
        (case mkdir_p (tree_path (cwd e) t) fs of
           Inl err \<Rightarrow> \<lparr>disk = fs, stdout = [], stderr = [Diagnostic ''node'' err], exit_code = 1\<rparr>
         | Inr fs1 \<Rightarrow>
             (case copy_loop cpSync check_mark (tree_path (cwd e) (skillsSource e))
                     (tree_path (cwd e) t) (dir_names es)
                     (fs1, ['''', (if isGlobal e then ''Installing Next.js Claude skills globally...''
                                  else ''Installing Next.js Claude skills to project...''),
                            ''Target: '' @ t, ''''], 0) of
                ((fs2, out, installed), Some err) \<Rightarrow>
                  \<lparr>disk = fs2, stdout = out, stderr = [Diagnostic ''node'' err], exit_code = 1\<rparr>
              | ((fs2, out, installed), None) \<Rightarrow>
                  \<lparr>disk = fs2, stdout = out @ closing_lines installed, stderr = [],
                   exit_code = 0\<rparr>)))"
  unfolding install_js_def Let_def existsSync_def readdirSync_def
  by (simp only: assms sum.case option.case node.case readdir_dir_names length_0_conv
      not_not option.distinct if_False if_True simp_thms)


lemma install_js_success:
  assumes "exit_code (install_js e fs) = 0" and "targetBase e = Inr t"
    and "lookup fs (tree_path (cwd e) (skillsSource e)) = Some (Dir es)"
  shows "\<exists>fs1 fs2 out n.
           mkdir_p (tree_path (cwd e) t) fs = Inr fs1 \<and>
           copy_loop cpSync check_mark (tree_path (cwd e) (skillsSource e)) (tree_path (cwd e) t)
             (dir_names es)
             (fs1, ['''', (if isGlobal e then ''Installing Next.js Claude skills globally...''
                          else ''Installing Next.js Claude skills to project...''),
                    ''Target: '' @ t, ''''], 0) = ((fs2, out, n), None) \<and>
           install_js e fs = \<lparr>disk = fs2, stdout = out @ closing_lines n, stderr = [], exit_code = 0\<rparr>"
proof -
  let ?S = "tree_path (cwd e) (skillsSource e)"
  let ?T = "tree_path (cwd e) t"
  define banner where "banner = ['''', (if isGlobal e then ''Installing Next.js Claude skills globally...''
                          else ''Installing Next.js Claude skills to project...''),
                    ''Target: '' @ t, '''']"
  note st = install_js_steps[OF assms(2,3), folded banner_def]
  show ?thesis
  proof (cases "dir_names es = []")
    case True
    have "exit_code (install_js e fs) = 1"
      by (subst st) (simp add: True)
    with assms(1) show ?thesis by simp
  next
    case False
    note ne = this
    show ?thesis
    proof (cases "mkdir_p ?T fs")
      case (Inl err)
      have "exit_code (install_js e fs) = 1"
        by (subst st) (simp add: ne Inl)
      with assms(1) show ?thesis by simp
    next
      case (Inr fs1)
      obtain r err where lp0:
        "copy_loop cpSync check_mark ?S ?T (dir_names es) (fs1, banner, 0) = (r, err)"
        by (cases "copy_loop cpSync check_mark ?S ?T (dir_names es) (fs1, banner, 0)")
      obtain fs2 out n where r: "r = (fs2, out, n)" by (cases r)
      note lp = lp0[unfolded r]
      show ?thesis
      proof (cases err)
        case (Some x)
        have "exit_code (install_js e fs) = 1"
          by (subst st) (simp add: ne Inr lp Some)
        with assms(1) show ?thesis by simp
      next
        case None
        have "install_js e fs = \<lparr>disk = fs2, stdout = out @ closing_lines n, stderr = [], exit_code = 0\<rparr>"
          by (subst st) (simp add: ne Inr lp None)
        with Inr lp[unfolded banner_def] None show ?thesis by blast
      qed
    qed
  qed
qed






lemma length_insert_by: "length (insert_by le x xs) = Suc (length xs)"
  by (induction xs) auto

lemma length_sort_by: "length (sort_by le xs) = length xs"
  by (induction xs) (simp_all add: sort_by_def length_insert_by)









lemma install_js_stdout:
  assumes "exit_code (install_js e fs) = 0" and "targetBase e = Inr t"
    and "lookup fs (tree_path (cwd e) (skillsSource e)) = Some (Dir es)"
  shows "stdout (install_js e fs) =
           ['''', (if isGlobal e then ''Installing Next.js Claude skills globally...''
                   else ''Installing Next.js Claude skills to project...''),
            ''Target: '' @ t, ''''] @
           map ((@) check_mark) (dir_names es) @ closing_lines (length (dir_names es))"
proof -
  from install_js_success[OF assms] obtain fs1 fs2 out n where
    lp: "copy_loop cpSync check_mark (tree_path (cwd e) (skillsSource e)) (tree_path (cwd e) t)
             (dir_names es)
             (fs1, ['''', (if isGlobal e then ''Installing Next.js Claude skills globally...''
                          else ''Installing Next.js Claude skills to project...''),
                    ''Target: '' @ t, ''''], 0) = ((fs2, out, n), None)"
    and r: "install_js e fs = \<lparr>disk = fs2, stdout = out @ closing_lines n, stderr = [], exit_code = 0\<rparr>"
    by blast
  from copy_loop_out[OF lp] r show ?thesis by simp
qed

lemma run_js_demo:
  "install_js js_demo fs_demo =
     \<lparr>disk = Dir [(''pkg'', Dir [(''bin'', Dir [(''install.js'', File ''js'')]),
                        (''skills'', Dir [(''alpha'', Dir [(''SKILL.md'', File ''A'')]),
                                          (''NOTES'', File ''n''),
                                          (''beta'', Dir [(''SKILL.md'', File ''B'')])])]),
          (''home'', Dir [(''u'', Dir [(''proj'', Dir [(''.claude'', Dir [(''skills'',
              Dir [(''alpha'', Dir [(''SKILL.md'', File ''A'')]),
                   (''beta'', Dir [(''SKILL.md'', File ''B'')])])])])])]),
          (''tmp'', Dir [])],
      stdout = ['''', ''Installing Next.js Claude skills to project...'',
                ''Target: /home/u/proj/.claude/skills'', '''',
                check_mark @ ''alpha'', check_mark @ ''beta'', '''',
                ''Done! 2 skills installed.'', '''',
                ''Skills are auto-activated by Claude Code based on your prompts.'',
                ''No additional configuration needed.'', ''''],
      stderr = [], exit_code = 0\<rparr>"
  by code_simp

lemma run_sh_demo:
  "install_sh sh_demo fs_demo =
     \<lparr>disk = Dir [(''pkg'', Dir [(''bin'', Dir [(''install.js'', File ''js'')]),
                        (''skills'', Dir [(''alpha'', Dir [(''SKILL.md'', File ''A'')]),
                                          (''NOTES'', File ''n''),
                                          (''beta'', Dir [(''SKILL.md'', File ''B'')])])]),
          (''home'', Dir [(''u'', Dir [(''proj'', Dir [(''.claude'', Dir [(''skills'',
              Dir [(''alpha'', Dir [(''SKILL.md'', File ''A'')]),
                   (''beta'', Dir [(''SKILL.md'', File ''B'')])])])])])]),
          (''tmp'', Dir [])],
      stdout = ['''', ''Cloning Next.js Claude skills...'',
                ''Installing to project at /home/u/proj/.claude/skills'', '''',
                ''  + alpha'', ''  + beta'', '''',
                ''Done! 2 skills installed.'', '''',
                ''Skills are auto-activated by Claude Code based on your prompts.'',
                ''No additional configuration needed.'', ''''],
      stderr = [], exit_code = 0\<rparr>"
  by code_simp

lemma copy_loop_out_partial:
  "copy_loop copy g S T names (fs, out, i) = ((fs', out', i'), e) \<Longrightarrow>
     \<exists>j. out' = out @ map ((@) g) (take j names)"
proof (induction names arbitrary: fs out i)
  case Nil
  then show ?case by simp
next
  case (Cons a names)
  obtain fs1 e1 where c: "copy (S @ [a]) (T @ [a]) fs = (fs1, e1)"
    by (cases "copy (S @ [a]) (T @ [a]) fs")
  show ?case
  proof (cases e1)
    case (Some err)
    with Cons.prems c have "out' = out @ map ((@) g) (take 0 (a # names))" by simp
    then show ?thesis by blast
  next
    case None
    with Cons.prems c have
      "copy_loop copy g S T names (fs1, out @ [g @ a], i + 1) = ((fs', out', i'), e)" by simp
    from Cons.IH[OF this] obtain j where "out' = (out @ [g @ a]) @ map ((@) g) (take j names)"
      by blast
    then have "out' = out @ map ((@) g) (take (Suc j) (a # names))" by simp
    then show ?thesis by blast
  qed
qed

lemma check_mark_line:
  "check_mark @ k \<notin> set (closing_lines n)"
  "check_mark @ k \<noteq> ''''"
  "check_mark @ k \<noteq> ''Installing Next.js Claude skills globally...''"
  "check_mark @ k \<noteq> ''Installing Next.js Claude skills to project...''"
  "check_mark @ k \<noteq> ''Target: '' @ t"
  by (simp_all add: check_mark_def closing_lines_def)

lemma install_js_untouched:
  assumes tb: "targetBase e = Inr t"
    and pay: "lookup fs (tree_path (cwd e) (skillsSource e)) = Some (Dir es)"
    and k: "k \<notin> set (dir_names es)"
  shows "lookup (disk (install_js e fs)) (tree_path (cwd e) t @ k # q)
           = lookup fs (tree_path (cwd e) t @ k # q)"
    and "check_mark @ k \<notin> set (stdout (install_js e fs))"
proof -
  let ?S = "tree_path (cwd e) (skillsSource e)"
  let ?T = "tree_path (cwd e) t"
  define banner where "banner = ['''', (if isGlobal e then ''Installing Next.js Claude skills globally...''
                          else ''Installing Next.js Claude skills to project...''),
                    ''Target: '' @ t, '''']"
  have bn: "check_mark @ k \<notin> set banner"
    using check_mark_line[of k] by (simp add: banner_def)
  note st = install_js_steps[OF tb pay, folded banner_def]
  have "lookup (disk (install_js e fs)) (?T @ k # q) = lookup fs (?T @ k # q) \<and>
        check_mark @ k \<notin> set (stdout (install_js e fs))"
  proof (cases "dir_names es = []")
    case True
    show ?thesis by (subst st, subst st) (simp add: True)
  next
    case False
    note ne = this
    show ?thesis
    proof (cases "mkdir_p ?T fs")
      case (Inl err)
      show ?thesis by (subst st, subst st) (simp add: ne Inl)
    next
      case (Inr fs1)
      obtain r err where lp0:
        "copy_loop cpSync check_mark ?S ?T (dir_names es) (fs1, banner, 0) = (r, err)"
        by (cases "copy_loop cpSync check_mark ?S ?T (dir_names es) (fs1, banner, 0)")
      obtain fs2 out n where r: "r = (fs2, out, n)" by (cases r)
      note lp = lp0[unfolded r]
      have "lookup fs2 (?T @ k # q) = lookup fs1 (?T @ k # q)"
      proof (rule copy_loop_frame[OF _ _ lp])
        show "lookup (fst (cpSync src dest n)) (?T @ k # q) = lookup n (?T @ k # q)"
          if "apart dest (?T @ k # q)" for src dest n
          using cpSync_apart[OF that] .
        show "\<forall>k' \<in> set (dir_names es). apart (?T @ [k']) (?T @ k # q)"
          using k by (auto intro: apart_siblings)
      qed
      also have "\<dots> = lookup fs (?T @ k # q)"
        by (rule mkdir_p_other[OF Inr]) simp
      finally have d: "lookup fs2 (?T @ k # q) = lookup fs (?T @ k # q)" .
      from copy_loop_out_partial[OF lp] obtain j where
        out: "out = banner @ map ((@) check_mark) (take j (dir_names es))" by blast
      have "k \<notin> set (take j (dir_names es))" using k by (meson in_set_takeD)
      with bn out have o: "check_mark @ k \<notin> set out" by auto
      show ?thesis
      proof (cases err)
        case (Some x)
        show ?thesis by (subst st, subst st) (simp add: ne Inr lp Some d o)
      next
        case None
        show ?thesis
          by (subst st, subst st) (simp add: ne Inr lp None d o check_mark_line)
      qed
    qed
  qed
  then show "lookup (disk (install_js e fs)) (?T @ k # q) = lookup fs (?T @ k # q)"
    and "check_mark @ k \<notin> set (stdout (install_js e fs))" by simp_all
qed

lemma no_dirs_names: "(\<forall>m \<in> snd ` set es. \<not> is_dir (Some m)) \<Longrightarrow> dir_names es = []"
  by (auto simp: dir_names_def filter_empty_conv)



lemma distinct_dir_names: "distinct (map fst es) \<Longrightarrow> distinct (dir_names es)"
  by (simp add: dir_names_def distinct_map_filter)

lemma dir_names_lookup:
  assumes "distinct (map fst es)" and "k \<in> set (dir_names es)"
  shows "\<exists>xs. map_of es k = Some (Dir xs)"
proof -
  from assms(2) obtain m where "(k, m) \<in> set es" and "is_dir (Some m)"
    by (auto simp: dir_names_def)
  then obtain xs where "(k, Dir xs) \<in> set es"
    by (cases m) (auto simp: is_dir_def)
  with assms(1) show ?thesis by (auto dest: map_of_is_SomeI)
qed

lemma wf_dir: "wf n \<Longrightarrow> lookup n p = Some (Dir es) \<Longrightarrow> distinct (map fst es)"
  using wf_lookup[of n p "Dir es"] by simp

text \<open>
  The local installer, on a successful run over a well-formed file system where payload
  source and destination root lie apart: for each skill, what is at the destination
  afterwards is the result of copying the source skill, as it was before the run, onto the
  destination entry, as it was before the run.
\<close>

lemma install_js_skill:
  assumes ex: "exit_code (install_js e fs) = 0" and tb: "targetBase e = Inr t"
    and pay: "lookup fs (tree_path (cwd e) (skillsSource e)) = Some (Dir es)"
    and wf: "wf fs"
    and ap: "apart (tree_path (cwd e) (skillsSource e)) (tree_path (cwd e) t)"
    and k: "k \<in> set (dir_names es)"
  shows "\<exists>xs d'. lookup fs (tree_path (cwd e) (skillsSource e) @ [k]) = Some (Dir xs) \<and>
           cp_node True (Dir xs) (lookup fs (tree_path (cwd e) t @ [k])) = (d', None) \<and>
           (\<forall>q. lookup (disk (install_js e fs)) (tree_path (cwd e) t @ k # q) = lookup d' q)"
proof -
  let ?S = "tree_path (cwd e) (skillsSource e)"
  let ?T = "tree_path (cwd e) t"
  from install_js_success[OF ex tb pay] obtain fs1 fs2 out n where
    md: "mkdir_p ?T fs = Inr fs1"
    and lp: "copy_loop cpSync check_mark ?S ?T (dir_names es)
             (fs1, ['''', (if isGlobal e then ''Installing Next.js Claude skills globally...''
                          else ''Installing Next.js Claude skills to project...''),
                    ''Target: '' @ t, ''''], 0) = ((fs2, out, n), None)"
    and r: "install_js e fs = \<lparr>disk = fs2, stdout = out @ closing_lines n, stderr = [], exit_code = 0\<rparr>"
    by blast
  have dist: "distinct (map fst es)" by (rule wf_dir[OF wf pay])
  from dir_names_lookup[OF dist k] obtain xs where xs: "map_of es k = Some (Dir xs)" by blast
  have src: "lookup fs (?S @ [k]) = Some (Dir xs)"
    using pay xs by (simp add: lookup_append)
  from copy_loop_step[OF cpSync_apart distinct_dir_names[OF dist] ap k lp]
  obtain m m' where
    c: "cpSync (?S @ [k]) (?T @ [k]) m = (m', None)"
    and s: "\<And>q. lookup m (?S @ k # q) = lookup fs1 (?S @ k # q)"
    and d: "\<And>q. lookup m (?T @ k # q) = lookup fs1 (?T @ k # q)"
    and f: "\<And>q. lookup fs2 (?T @ k # q) = lookup m' (?T @ k # q)"
    by blast
  have s1: "lookup fs1 (?S @ k # q) = lookup fs (?S @ k # q)" for q
    using mkdir_p_other[OF md apart_not_prefix_append[OF ap, of "k # q"]] .
  have d1: "lookup fs1 (?T @ k # q) = lookup fs (?T @ k # q)" for q
    by (rule mkdir_p_other[OF md]) simp
  from cpSync_ok[OF c] obtain sn where
    sn: "lookup m (?S @ [k]) = Some sn"
    and ok: "snd (cp_node True sn (lookup m (?T @ [k]))) = None"
    and res: "\<And>q. lookup m' ((?T @ [k]) @ q) = lookup (fst (cp_node True sn (lookup m (?T @ [k])))) q"
    by blast
  from sn s[of "[]"] s1[of "[]"] src have sn': "sn = Dir xs" by simp
  from d[of "[]"] d1[of "[]"] have dd: "lookup m (?T @ [k]) = lookup fs (?T @ [k])" by simp
  define d' where "d' = fst (cp_node True (Dir xs) (lookup fs (?T @ [k])))"
  have "cp_node True (Dir xs) (lookup fs (?T @ [k])) = (d', None)"
    using ok sn' dd by (simp add: d'_def prod_eq_iff)
  moreover have "lookup (disk (install_js e fs)) (?T @ k # q) = lookup d' q" for q
    using f[of q] res[of q] r sn' dd by (simp add: d'_def)
  ultimately show ?thesis using src by blast
qed

lemma install_js_dirs:
  assumes ex: "exit_code (install_js e fs) = 0" and tb: "targetBase e = Inr t"
    and pay: "lookup fs (tree_path (cwd e) (skillsSource e)) = Some (Dir es)"
    and wf: "wf fs"
    and ap: "apart (tree_path (cwd e) (skillsSource e)) (tree_path (cwd e) t)"
  shows "is_dir (lookup (disk (install_js e fs)) (tree_path (cwd e) t @ [k])) \<longleftrightarrow>
           is_dir (lookup fs (tree_path (cwd e) t @ [k])) \<or> k \<in> set (dir_names es)"
proof (cases "k \<in> set (dir_names es)")
  case True
  from install_js_skill[OF ex tb pay wf ap True] obtain xs d' where
    c: "cp_node True (Dir xs) (lookup fs (tree_path (cwd e) t @ [k])) = (d', None)"
    and l: "\<And>q. lookup (disk (install_js e fs)) (tree_path (cwd e) t @ k # q) = lookup d' q"
    by blast
  from cp_node_Dir_ok[OF c] obtain des' where "d' = Dir des'" by blast
  with l[of "[]"] True show ?thesis by (simp add: is_dir_def)
next
  case False
  from install_js_untouched(1)[OF tb pay False, of "[]"] False show ?thesis by simp
qed


lemma run_js_stale:
  "install_js js_demo fs_stale =
     \<lparr>disk = Dir [(''pkg'', Dir [(''bin'', Dir [(''install.js'', File ''js'')]),
                        (''skills'', Dir [(''alpha'', Dir [(''SKILL.md'', File ''A'')]),
                                          (''NOTES'', File ''n''),
                                          (''beta'', Dir [(''SKILL.md'', File ''B'')])])]),
          (''home'', Dir [(''u'', Dir [(''proj'', Dir [(''.claude'', Dir [(''skills'',
              Dir [(''mine'', Dir [(''SKILL.md'', File ''M'')]),
                   (''alpha'', Dir [(''SKILL.md'', File ''A''), (''local.md'', File ''L'')]),
                   (''beta'', Dir [(''SKILL.md'', File ''B'')])])])])])]),
          (''tmp'', Dir [])],
      stdout = ['''', ''Installing Next.js Claude skills to project...'',
                ''Target: /home/u/proj/.claude/skills'', '''',
                check_mark @ ''alpha'', check_mark @ ''beta'', '''',
                ''Done! 2 skills installed.'', '''',
                ''Skills are auto-activated by Claude Code based on your prompts.'',
                ''No additional configuration needed.'', ''''],
      stderr = [], exit_code = 0\<rparr>"
  by code_simp


lemma demo_wf: "wf fs_stale" "wf fs_demo"
  by (simp_all add: fs_stale_def fs_demo_def)

lemma demo_apart:
  "apart [''pkg'', ''skills''] [''home'', ''u'', ''proj'', ''.claude'', ''skills'']"
  "apart [''tmp'', ''tmp.Xq1''] [''home'', ''u'', ''proj'', ''.claude'', ''skills'']"
  by (simp_all add: apart_def)

lemma demo_payload:
  "lookup fs_stale [''pkg'', ''skills''] =
     Some (Dir [(''alpha'', Dir [(''SKILL.md'', File ''A'')]), (''NOTES'', File ''n''),
                (''beta'', Dir [(''SKILL.md'', File ''B'')])])"
  "dir_names [(''alpha'', Dir [(''SKILL.md'', File ''A'')]), (''NOTES'', File ''n''),
              (''beta'', Dir [(''SKILL.md'', File ''B'')])] = [''alpha'', ''beta'']"
  "dir_names [(''beta'', Dir [(''SKILL.md'', File ''B'')]),
              (''alpha'', Dir [(''SKILL.md'', File ''A'')])] = [''beta'', ''alpha'']"
  by (simp_all add: fs_stale_def dir_names_def is_dir_def)

section \<open>Properties of the path strings\<close>

lemma split_slash_ne: "split_slash s \<noteq> []"
  by (induction s) (auto split: list.splits)

lemma split_slash_append: "split_slash (a @ CHR ''/'' # b) = split_slash a @ split_slash b"
  by (induction a) (auto split: list.splits simp: split_slash_ne)

lemma split_slash_noslash: "CHR ''/'' \<notin> set s \<Longrightarrow> split_slash s = [s]"
  by (induction s) auto

lemma split_slash_segments: "t \<in> set (split_slash x) \<Longrightarrow> CHR ''/'' \<notin> set t"
  by (induction x arbitrary: t) (auto split: if_splits list.splits)

lemma split_join:
  "N \<noteq> [] \<Longrightarrow> \<forall>s \<in> set N. CHR ''/'' \<notin> set s \<Longrightarrow> split_slash (join_slash N) = N"
proof (induction N rule: join_slash.induct)
  case 1
  then show ?case by simp
next
  case (2 s)
  then show ?case by (simp add: split_slash_noslash)
next
  case (3 s t ss)
  then show ?case by (simp add: split_slash_append split_slash_noslash)
qed

lemma join_slash_hd:
  "N \<noteq> [] \<Longrightarrow> hd N \<noteq> [] \<Longrightarrow> join_slash N \<noteq> [] \<and> hd (join_slash N) = hd (hd N)"
  by (induction N rule: join_slash.induct) auto

lemma NS_append:
  "normalizeString a res (xs @ ys) = normalizeString a (normalizeString a res xs) ys"
  by (induction a res xs rule: normalizeString.induct) auto

lemma NS_plain: "\<forall>s \<in> set xs. plain s \<Longrightarrow> normalizeString a res xs = res @ xs"
  by (induction xs arbitrary: res) (simp_all add: plain_def)

lemma NS_False_plain:
  "\<forall>s \<in> set res. plain s \<Longrightarrow> \<forall>s \<in> set (normalizeString False res xs). plain s"
proof (induction xs arbitrary: res)
  case Nil
  then show ?case by simp
next
  case (Cons x xs)
  have b: "\<forall>s \<in> set (butlast res). plain s" using Cons.prems by (meson in_set_butlastD)
  have c: "\<forall>s \<in> set (res @ [x]). plain s" if "x \<noteq> []" "x \<noteq> ''.''" "x \<noteq> ''..''"
    using Cons.prems that by (simp add: plain_def)
  show ?case using Cons.IH[OF Cons.prems] Cons.IH[OF b] Cons.IH[OF c] by simp
qed

lemma NS_segments:
  "\<forall>s \<in> set res. s \<noteq> [] \<and> CHR ''/'' \<notin> set s \<Longrightarrow> \<forall>s \<in> set xs. CHR ''/'' \<notin> set s \<Longrightarrow>
     \<forall>s \<in> set (normalizeString a res xs). s \<noteq> [] \<and> CHR ''/'' \<notin> set s"
proof (induction xs arbitrary: res)
  case Nil
  then show ?case by simp
next
  case (Cons x xs)
  have xs: "\<forall>s \<in> set xs. CHR ''/'' \<notin> set s" using Cons.prems(2) by simp
  have b: "\<forall>s \<in> set (butlast res). s \<noteq> [] \<and> CHR ''/'' \<notin> set s"
    using Cons.prems(1) by (meson in_set_butlastD)
  have c: "\<forall>s \<in> set (res @ [x]). s \<noteq> [] \<and> CHR ''/'' \<notin> set s" if "x \<noteq> []"
    using Cons.prems that by simp
  have d: "\<forall>s \<in> set (res @ [''..'']). s \<noteq> [] \<and> CHR ''/'' \<notin> set s"
    using Cons.prems by simp
  show ?case
    using Cons.IH[OF Cons.prems(1) xs] Cons.IH[OF b xs] Cons.IH[OF c xs] Cons.IH[OF d xs]
    by simp
qed

text \<open>
  Resolving a normalised relative path against a base gives what resolving the path itself
  gives: \<open>C\<close> is the base, already resolved, and \<open>R\<close> the part of the relative path
  normalised so far, some \<open>..\<close> followed by plain segments.
\<close>

lemma NS_relative:
  assumes C: "\<forall>s \<in> set C. plain s"
  shows "R = replicate k ''..'' @ cl \<Longrightarrow> \<forall>s \<in> set cl. plain s \<Longrightarrow>
           normalizeString False C (normalizeString True R xs)
             = normalizeString False (normalizeString False C R) xs"
proof (induction xs arbitrary: R k cl)
  case Nil
  show ?case by simp
next
  case (Cons x xs)
  let ?D = "normalizeString False C R"
  have Dplain: "\<forall>s \<in> set ?D. plain s" by (rule NS_False_plain[OF C])
  consider (skip) "x = [] \<or> x = ''.''" | (up) "x = ''..''" | (name) "plain x"
    by (auto simp: plain_def)
  then show ?case
  proof cases
    case skip
    then show ?thesis using Cons.IH[OF Cons.prems] by auto
  next
    case name
    have R': "R @ [x] = replicate k ''..'' @ (cl @ [x])" using Cons.prems(1) by simp
    have p: "\<forall>s \<in> set (cl @ [x]). plain s" using Cons.prems(2) name by simp
    have "normalizeString False C (R @ [x]) = ?D @ [x]"
      using name by (simp add: NS_append plain_def)
    with Cons.IH[OF R' p] name show ?thesis by (simp add: plain_def)
  next
    case up
    show ?thesis
    proof (cases "cl = []")
      case True
      with Cons.prems(1) have Rd: "R = replicate k ''..''" by simp
      then have nolast: "\<not> (R \<noteq> [] \<and> last R \<noteq> ''..'')" by (cases k) auto
      have R': "R @ [''..''] = replicate (Suc k) ''..'' @ []"
        using Rd by (simp add: replicate_append_same)
      have "normalizeString False C (R @ [''..''])
              = (if ?D \<noteq> [] \<and> last ?D \<noteq> ''..'' then butlast ?D else ?D)"
        by (simp add: NS_append)
      with Cons.IH[OF R'] up nolast show ?thesis by auto
    next
      case False
      then have R: "R = (replicate k ''..'' @ butlast cl) @ [last cl]"
        using Cons.prems(1) by simp
      have lp: "plain (last cl)" using False Cons.prems(2) by simp
      then have l: "last cl \<noteq> ''..''" "last cl \<noteq> []" "last cl \<noteq> ''.''" by (simp_all add: plain_def)
      have Rne: "R \<noteq> []" "last R = last cl" "butlast R = replicate k ''..'' @ butlast cl"
        using R by (simp_all add: butlast_append False Cons.prems(1))
      have bp: "\<forall>s \<in> set (butlast cl). plain s" using Cons.prems(2) by (meson in_set_butlastD)
      have D: "?D = normalizeString False C (butlast R) @ [last cl]"
        using l Rne
        by (subst R, subst NS_append) (simp add: Rne(3))
      then have "?D \<noteq> []" "last ?D \<noteq> ''..''" "butlast ?D = normalizeString False C (butlast R)"
        using l by simp_all
      with Cons.IH[OF Rne(3) bp] up Rne l show ?thesis by simp
    qed
  qed
qed

lemma tree_path_abs: "is_absolute x \<Longrightarrow> tree_path wd x = normalizeString False [] (split_slash x)"
  by (simp add: tree_path_def)

lemma tree_path_rel:
  "\<not> is_absolute x \<Longrightarrow>
     tree_path wd x = normalizeString False (normalizeString False [] (split_slash wd)) (split_slash x)"
  by (simp add: tree_path_def split_slash_append NS_append)

lemma is_absolute_Cons: "is_absolute x \<Longrightarrow> \<exists>x'. x = CHR ''/'' # x'"
  by (cases x) (auto simp: is_absolute_def)

lemma NS_trailing:
  "normalizeString a res (xs @ (if b then [[]] else [])) = normalizeString a res xs"
  by (simp add: NS_append)

lemma split_trailing:
  assumes "N \<noteq> []" and "\<forall>s \<in> set N. CHR ''/'' \<notin> set s"
  shows "split_slash (join_slash N @ (if b then ''/'' else [])) = N @ (if b then [[]] else [])"
  using split_join[OF assms] by (simp add: split_slash_append)

text \<open>
  The string \<open>path.join\<close> returns names the same file as the string it normalised.
\<close>

lemma tree_path_normalize:
  assumes "x \<noteq> []"
  shows "tree_path wd (normalize x) = tree_path wd x"
proof (cases "is_absolute x")
  case True
  let ?N = "normalizeString False [] (split_slash x)"
  have pl: "\<forall>s \<in> set ?N. plain s" by (rule NS_False_plain) simp
  have seg: "\<forall>s \<in> set ?N. s \<noteq> [] \<and> CHR ''/'' \<notin> set s"
    by (rule NS_segments) (auto dest: split_slash_segments)
  show ?thesis
  proof (cases "?N = []")
    case True
    with \<open>is_absolute x\<close> assms have "normalize x = ''/''"
      by (simp add: normalize_def Let_def)
    then show ?thesis
      using True \<open>is_absolute x\<close> by (simp add: tree_path_def is_absolute_def)
  next
    case False
    then have hd: "hd ?N \<noteq> []" using seg by (cases ?N) auto
    from join_slash_hd[OF False hd] have q: "join_slash ?N \<noteq> []" by simp
    have n: "normalize x = CHR ''/'' # join_slash ?N @ (if trailing_slash x then ''/'' else [])"
      using \<open>is_absolute x\<close> assms q by (simp add: normalize_def Let_def)
    have "tree_path wd (normalize x)
            = normalizeString False [] (split_slash (normalize x))"
      by (rule tree_path_abs) (simp add: n is_absolute_def)
    also have "\<dots> = normalizeString False []
                       ([] # ?N @ (if trailing_slash x then [[]] else []))"
      using split_trailing[OF False, of "trailing_slash x"] seg by (simp add: n)
    also have "\<dots> = normalizeString False [] ?N"
      using NS_trailing[of False "[]" ?N "trailing_slash x"] by simp
    also have "\<dots> = ?N" using NS_plain[OF pl, of False "[]"] by simp
    also have "\<dots> = tree_path wd x" using tree_path_abs[OF \<open>is_absolute x\<close>] by simp
    finally show ?thesis .
  qed
next
  case False
  let ?C = "normalizeString False [] (split_slash wd)"
  let ?N = "normalizeString True [] (split_slash x)"
  have C: "\<forall>s \<in> set ?C. plain s" by (rule NS_False_plain) simp
  have seg: "\<forall>s \<in> set ?N. s \<noteq> [] \<and> CHR ''/'' \<notin> set s"
    by (rule NS_segments) (auto dest: split_slash_segments)
  have rel: "normalizeString False ?C ?N = normalizeString False ?C (split_slash x)"
    using NS_relative[OF C, of "[]" 0 "[]" "split_slash x"] by simp
  have goal: "tree_path wd x = normalizeString False ?C ?N"
    using tree_path_rel[OF False] rel by simp
  show ?thesis
  proof (cases "?N = []")
    case True
    with False assms have "normalize x = ''.'' \<or> normalize x = ''./''"
      by (simp add: normalize_def Let_def)
    then have "tree_path wd (normalize x) = ?C"
      by (auto simp: tree_path_def is_absolute_def split_slash_append NS_append)
    with goal True show ?thesis by simp
  next
    case N: False
    then have hdN: "hd ?N \<noteq> []" "CHR ''/'' \<notin> set (hd ?N)" using seg by (cases ?N; auto)+
    from join_slash_hd[OF N hdN(1)] have q: "join_slash ?N \<noteq> []"
      and hq: "hd (join_slash ?N) = hd (hd ?N)" by simp_all
    have "hd (hd ?N) \<in> set (hd ?N)" using hdN(1) by simp
    with hdN(2) hq have nh: "hd (join_slash ?N) \<noteq> CHR ''/''" by metis
    have n: "normalize x = join_slash ?N @ (if trailing_slash x then ''/'' else [])"
      using False assms q by (simp add: normalize_def Let_def)
    have na: "\<not> is_absolute (normalize x)"
      using q nh by (cases "join_slash ?N") (auto simp: n is_absolute_def)
    have "tree_path wd (normalize x)
            = normalizeString False ?C (split_slash (normalize x))"
      by (rule tree_path_rel[OF na])
    also have "\<dots> = normalizeString False ?C (?N @ (if trailing_slash x then [[]] else []))"
      using split_trailing[OF N, of "trailing_slash x"] seg by (simp add: n)
    also have "\<dots> = normalizeString False ?C ?N"
      by (rule NS_trailing)
    finally show ?thesis using goal by simp
  qed
qed

lemma claude_skills_segments:
  "split_slash ''.claude/skills'' = [''.claude'', ''skills'']"
  "normalizeString a res [''.claude'', ''skills''] = res @ [''.claude'', ''skills'']"
  by simp_all

lemma tree_path_sub:
  assumes "h \<noteq> []"
  shows "tree_path wd (h @ ''/.claude/skills'') = tree_path wd h @ [''.claude'', ''skills'']"
proof -
  have s: "split_slash (h @ ''/.claude/skills'') = split_slash h @ [''.claude'', ''skills'']"
    using split_slash_append[of h "''.claude/skills''"] claude_skills_segments(1) by simp
  have a: "is_absolute (h @ ''/.claude/skills'') = is_absolute h"
    using assms by (cases h) (simp_all add: is_absolute_def)
  show ?thesis
  proof (cases "is_absolute h")
    case True
    then show ?thesis
      using a s claude_skills_segments(2) by (simp add: tree_path_def NS_append)
  next
    case False
    have "split_slash (wd @ ''/'' @ h @ ''/.claude/skills'')
            = split_slash wd @ split_slash h @ [''.claude'', ''skills'']"
      using split_slash_append[of wd "h @ ''/.claude/skills''"] s by simp
    moreover have "split_slash (wd @ ''/'' @ h) = split_slash wd @ split_slash h"
      using split_slash_append[of wd h] by simp
    ultimately show ?thesis
      using False a claude_skills_segments(2)
      by (simp add: tree_path_def NS_append del: split_slash.simps)
  qed
qed

lemma tree_path_sub_empty:
  "tree_path wd ''.claude/skills'' = tree_path wd [] @ [''.claude'', ''skills'']"
proof -
  have "split_slash (wd @ ''/'' @ ''.claude/skills'') = split_slash wd @ [''.claude'', ''skills'']"
    using split_slash_append[of wd "''.claude/skills''"] claude_skills_segments(1) by simp
  moreover have "split_slash (wd @ ''/'' @ []) = split_slash wd @ [[]]"
    using split_slash_append[of wd "[]"] by simp
  ultimately show ?thesis
    using claude_skills_segments(2)
    by (simp add: tree_path_def is_absolute_def NS_append del: split_slash.simps)
qed

lemma tree_path_sub_wd:
  "tree_path wd (wd @ ''/.claude/skills'') = tree_path wd wd @ [''.claude'', ''skills'']"
proof (cases "wd = []")
  case True
  then show ?thesis by (simp add: tree_path_def is_absolute_def)
next
  case False
  then show ?thesis by (rule tree_path_sub)
qed

lemma path_join_claude_skills:
  "path_join [Some h, Some ''.claude'', Some ''skills'']
     = Inr (normalize (if h = [] then ''.claude/skills'' else h @ ''/.claude/skills''))"
  by (simp add: path_join_def)

lemma js_destination:
  "\<exists>t. path_join [Some h, Some ''.claude'', Some ''skills''] = Inr t \<and>
       tree_path wd t = tree_path wd h @ [''.claude'', ''skills'']"
proof (cases "h = []")
  case True
  then show ?thesis
    using tree_path_normalize[of "''.claude/skills''" wd] tree_path_sub_empty[of wd]
    by (simp add: path_join_claude_skills)
next
  case False
  then have "h @ ''/.claude/skills'' \<noteq> []" by simp
  from tree_path_normalize[OF this, of wd] tree_path_sub[OF False, of wd] False
  show ?thesis by (simp add: path_join_claude_skills)
qed

lemma foldl_flag:
  "foldl (\<lambda>g arg. if arg = x then True else g) b xs = (b \<or> x \<in> set xs)"
  by (induction xs arbitrary: b) auto

lemma GLOBAL_iff: "GLOBAL se \<longleftrightarrow> ''--global'' \<in> set (sh_args se)"
  by (simp add: GLOBAL_def foldl_flag)

lemma demo_targets:
  "targetBase js_global = Inr ''/home/u/.claude/skills''"
  "targetBase js_demo = Inr ''/home/u/proj/.claude/skills''"
  "TARGET sh_global = Inr ''/home/u/.claude/skills''"
  "TARGET sh_demo = Inr ''/home/u/proj/.claude/skills''"
  by (simp_all add: targetBase_def js_global_def js_demo_def isGlobal_def js_or_def path_join_def
      normalize_def is_absolute_def trailing_slash_def TARGET_def GLOBAL_def sh_global_def
      sh_demo_def strip_newlines_def)

lemma demo_tree_paths:
  "tree_path ''/home/u/proj'' ''/home/u'' = [''home'', ''u'']"
  "tree_path ''/home/u/proj'' ''/home/u/proj'' = [''home'', ''u'', ''proj'']"
  "tree_path ''/home/u/proj'' ''/home/u/.claude/skills'' = [''home'', ''u'', ''.claude'', ''skills'']"
  by (simp_all add: tree_path_def is_absolute_def)

section \<open>Installing twice with the local installer\<close>

lemma cp_entries_idem:
  assumes each: "\<And>n s d d'. (n, s) \<in> set ses \<Longrightarrow> cp_node stop s d = (d', None)
                   \<Longrightarrow> cp_node stop s (Some d') = (d', None)"
    and "distinct (map fst ses)"
    and "cp_entries stop ses des = (des', None)"
  shows "cp_entries stop ses des' = (des', None)"
  using assms
proof (induction ses arbitrary: des)
  case Nil
  then show ?case by simp
next
  case (Cons a ses)
  obtain n0 s0 where a: "a = (n0, s0)" by (cases a)
  note st = cp_entries_step[OF Cons.prems(3)[unfolded a]]
  define d0 where "d0 = fst (cp_node stop s0 (map_of des n0))"
  have c0: "cp_node stop s0 (map_of des n0) = (d0, None)"
    using st by (simp add: d0_def prod_eq_iff)
  have rest: "cp_entries stop ses (AList.update n0 d0 des) = (des', None)"
    using st by (simp add: d0_def)
  from Cons.prems(2) a have dist: "distinct (map fst ses)" and nin: "n0 \<notin> fst ` set ses" by auto
  from nin have m0: "map_of ses n0 = None" by (simp add: map_of_eq_None_iff)
  have at: "map_of des' n0 = Some d0"
    using cp_entries_pointwise[OF rest dist, of n0] m0 by (simp add: update_conv')
  have again: "cp_node stop s0 (Some d0) = (d0, None)"
    using Cons.prems(1)[of n0 s0 "map_of des n0" d0] c0 by (simp add: a)
  have same: "AList.update n0 d0 des' = des'" by (rule update_triv[OF at])
  have ih: "cp_entries stop ses des' = (des', None)"
  proof (rule Cons.IH[OF _ dist rest])
    show "cp_node stop s (Some d') = (d', None)"
      if "(n, s) \<in> set ses" "cp_node stop s d = (d', None)" for n s d d'
      using Cons.prems(1)[of n s d d'] that by simp
  qed
  show ?case by (simp add: a at again same ih)
qed

text \<open>Copying a well-formed tree a second time onto the result of the first copy changes nothing.\<close>

lemma cp_node_idem:
  "wf s \<Longrightarrow> cp_node stop s d = (d', None) \<Longrightarrow> cp_node stop s (Some d') = (d', None)"
proof (induction s arbitrary: d d')
  case (File x)
  with cp_node_File_ok[OF File.prems(2)] show ?case by simp
next
  case (Dir ses)
  from cp_node_Dir_ok[OF Dir.prems(2)] obtain des' where d': "d' = Dir des'"
    and ce: "cp_entries stop ses (case d of Some (Dir xs) \<Rightarrow> xs | _ \<Rightarrow> []) = (des', None)"
    by blast
  from Dir.prems(1) have dist: "distinct (map fst ses)"
    and wfs: "\<And>m. m \<in> snd ` set ses \<Longrightarrow> wf m" by auto
  have "cp_entries stop ses des' = (des', None)"
  proof (rule cp_entries_idem[OF _ dist ce])
    fix n s d d'
    assume in_ses: "(n, s) \<in> set ses" and c: "cp_node stop s d = (d', None)"
    have "s \<in> snd ` set ses" using in_ses by force
    then have "wf s" by (rule wfs)
    moreover have "s \<in> Basic_BNFs.snds (n, s)" by simp
    ultimately show "cp_node stop s (Some d') = (d', None)"
      using Dir.IH[OF in_ses _ _ c] by blast
  qed
  then show ?case by (simp add: d')
qed

lemma lookup_parent_dir: "lookup n (p @ [c]) = Some m \<Longrightarrow> is_dir (lookup n p)"
  by (cases "lookup n p"; cases "the (lookup n p)") (auto simp: lookup_append is_dir_def)

lemma alter_same:
  "lookup n p = Some m \<Longrightarrow> fst (f (Some m)) = Some m \<Longrightarrow> fst (alter p f n) = n"
proof (induction p f n rule: alter.induct)
  case (1 f n)
  then show ?case by simp
next
  case (2 c p f x)
  then show ?case by simp
next
  case (3 c f es)
  then have "map_of es c = Some m" by (simp split: option.splits)
  with 3 show ?case by (simp add: case_prod_beta update_triv)
next
  case (4 c d p f es)
  then obtain k where k: "map_of es c = Some k" and l: "lookup k (d # p) = Some m"
    by (auto split: option.splits)
  from "4.IH"[OF k l "4.prems"(2)] show ?case
    using k by (simp add: case_prod_beta update_triv)
qed

lemma cpSync_same:
  assumes "lookup n src = Some s" and "\<not> prefix src (T @ [k])"
    and "lookup n (T @ [k]) = Some d'" and "cp_node True s (Some d') = (d', None)"
  shows "cpSync src (T @ [k]) n = (n, None)"
proof -
  let ?f = "\<lambda>d. case cp_node True s d of (n, e) \<Rightarrow> (Some n, e)"
  have f: "?f (Some d') = (Some d', None)" using assms(4) by simp
  have 1: "fst (alter (T @ [k]) ?f n) = n"
    by (rule alter_same[OF assms(3)]) (simp add: f)
  have "is_dir (lookup n (butlast (T @ [k])))"
    using lookup_parent_dir[OF assms(3)] by simp
  from alter_at[OF _ this, of ?f] have 2: "snd (alter (T @ [k]) ?f n) = None"
    using assms(3) f by simp
  from 1 2 have "alter (T @ [k]) ?f n = (n, None)" by (simp add: prod_eq_iff)
  with assms(1,2) show ?thesis by (simp add: cpSync_def)
qed

lemma copy_loop_same:
  assumes "\<forall>k \<in> set names. copy (S @ [k]) (T @ [k]) n = (n, None)"
  shows "copy_loop copy g S T names (n, out, i)
           = ((n, out @ map ((@) g) names, i + length names), None)"
  using assms by (induction names arbitrary: out i) simp_all

text \<open>
  The local installer is idempotent: after a successful run over a well-formed file system,
  with payload source and destination root apart, a second run prints the same and leaves
  the file system as the first run left it.
\<close>

theorem install_js_idempotent:
  assumes ex: "exit_code (install_js e fs) = 0" and tb: "targetBase e = Inr t"
    and pay: "lookup fs (tree_path (cwd e) (skillsSource e)) = Some (Dir es)"
    and wf: "wf fs"
    and ap: "apart (tree_path (cwd e) (skillsSource e)) (tree_path (cwd e) t)"
  shows "install_js e (disk (install_js e fs)) = install_js e fs"
proof -
  let ?S = "tree_path (cwd e) (skillsSource e)"
  let ?T = "tree_path (cwd e) t"
  define banner where "banner = ['''', (if isGlobal e then ''Installing Next.js Claude skills globally...''
                          else ''Installing Next.js Claude skills to project...''),
                    ''Target: '' @ t, '''']"
  from install_js_success[OF ex tb pay, folded banner_def] obtain fs1 fs2 out n where
    md: "mkdir_p ?T fs = Inr fs1"
    and lp: "copy_loop cpSync check_mark ?S ?T (dir_names es) (fs1, banner, 0) = ((fs2, out, n), None)"
    and r: "install_js e fs = \<lparr>disk = fs2, stdout = out @ closing_lines n, stderr = [], exit_code = 0\<rparr>"
    by blast
  from copy_loop_out[OF lp] have out: "out = banner @ map ((@) check_mark) (dir_names es)"
    and n: "n = length (dir_names es)" by simp_all
  have d2: "disk (install_js e fs) = fs2" using r by simp
  have ne: "dir_names es \<noteq> []"
  proof
    assume "dir_names es = []"
    then have "exit_code (install_js e fs) = 1"
      by (subst install_js_steps[OF tb pay]) simp
    with ex show False by simp
  qed
  have src1: "lookup fs1 (?S @ q) = lookup fs (?S @ q)" for q
    using mkdir_p_other[OF md apart_not_prefix_append[OF ap, of q]] .
  have src2: "lookup fs2 (?S @ q) = lookup fs1 (?S @ q)" for q
  proof (rule copy_loop_frame[OF _ _ lp])
    show "lookup (fst (cpSync src dest m)) (?S @ q) = lookup m (?S @ q)"
      if "apart dest (?S @ q)" for src dest m
      using cpSync_apart[OF that] .
    show "\<forall>k \<in> set (dir_names es). apart (?T @ [k]) (?S @ q)"
      using apart_append[OF apart_sym[OF ap]] by blast
  qed
  have pay2: "lookup fs2 ?S = Some (Dir es)"
    using src2[of "[]"] src1[of "[]"] pay by simp
  have each: "cpSync (?S @ [k]) (?T @ [k]) fs2 = (fs2, None)" if k: "k \<in> set (dir_names es)" for k
  proof -
    from install_js_skill[OF ex tb pay wf ap k] obtain xs d' where
      s: "lookup fs (?S @ [k]) = Some (Dir xs)"
      and c: "cp_node True (Dir xs) (lookup fs (?T @ [k])) = (d', None)"
      and l: "\<And>q. lookup (disk (install_js e fs)) (?T @ k # q) = lookup d' q"
      by blast
    have s2: "lookup fs2 (?S @ [k]) = Some (Dir xs)"
      using src2[of "[k]"] src1[of "[k]"] s by simp
    have t2: "lookup fs2 (?T @ [k]) = Some d'" using l[of "[]"] d2 by simp
    have w: "wf (Dir xs)" by (rule wf_lookup[OF wf s])
    have np: "\<not> prefix (?S @ [k]) (?T @ [k])"
      using apart_append[OF ap, of "[k]" "[k]"] by (simp add: apart_def)
    show ?thesis
      by (rule cpSync_same[OF s2 np t2 cp_node_idem[OF w c]])
  qed
  obtain k where k: "k \<in> set (dir_names es)" using ne by (cases "dir_names es") auto
  have "is_dir (lookup fs2 (?T @ [k]))"
    using install_js_dirs[OF ex tb pay wf ap, of k] k d2 by simp
  then obtain m where "lookup fs2 (?T @ [k]) = Some m"
    by (cases "lookup fs2 (?T @ [k])") (simp_all add: is_dir_def)
  from lookup_parent_dir[OF this] obtain ts where "lookup fs2 ?T = Some (Dir ts)"
    by (cases "lookup fs2 ?T"; cases "the (lookup fs2 ?T)") (auto simp: is_dir_def)
  from mkdir_p_existing[OF this] have md2: "mkdir_p ?T fs2 = Inr fs2" by simp
  have lp2: "copy_loop cpSync check_mark ?S ?T (dir_names es) (fs2, banner, 0) = ((fs2, out, n), None)"
    using copy_loop_same[of "dir_names es" cpSync ?S ?T fs2 check_mark banner 0] each out n
    by simp
  have "install_js e fs2 = \<lparr>disk = fs2, stdout = out @ closing_lines n, stderr = [], exit_code = 0\<rparr>"
    by (subst install_js_steps[OF tb pay2, folded banner_def]) (simp add: ne md2 lp2)
  with r d2 show ?thesis by simp
qed

section \<open>The destination root\<close>

text \<open>
  Which file the destination string names. Both installers look for the flag among their
  arguments (\<open>process.argv.slice(2)\<close>, \<open>"$@"\<close>) and for nothing else. With the flag, the
  local installer takes \<open>HOME\<close>, or \<open>USERPROFILE\<close> when \<open>HOME\<close> is unset or empty, and
  the script takes \<open>$HOME\<close>; without it, the local installer takes \<open>process.cwd()\<close> and
  the script \<open>$(pwd)\<close>. The path strings differ (\<open>path.join\<close> normalises, the script
  concatenates), so the statement is about the file they name: the path of the home or
  working directory, extended by \<open>.claude\<close> and \<open>skills\<close>. This holds for a non-empty
  name of the home directory and, in the script, for a working directory whose name does
  not end in a newline.
\<close>

lemma destination_paths:
  "(isGlobal e \<longleftrightarrow> ''--global'' \<in> set (drop 2 (argv e))) \<and>
   (isGlobal e \<and> env_HOME e = Some h \<and> h \<noteq> [] \<longrightarrow>
      (\<exists>t. targetBase e = Inr t \<and>
           tree_path (cwd e) t = tree_path (cwd e) h @ [''.claude'', ''skills''])) \<and>
   (isGlobal e \<and> (env_HOME e = None \<or> env_HOME e = Some []) \<and>
    env_USERPROFILE e = Some u \<and> u \<noteq> [] \<longrightarrow>
      (\<exists>t. targetBase e = Inr t \<and>
           tree_path (cwd e) t = tree_path (cwd e) u @ [''.claude'', ''skills''])) \<and>
   (\<not> isGlobal e \<longrightarrow>
      (\<exists>t. targetBase e = Inr t \<and>
           tree_path (cwd e) t = tree_path (cwd e) (cwd e) @ [''.claude'', ''skills''])) \<and>
   (GLOBAL se \<longleftrightarrow> ''--global'' \<in> set (sh_args se)) \<and>
   (GLOBAL se \<and> sh_HOME se = Some h' \<and> h' \<noteq> [] \<longrightarrow>
      (\<exists>t. TARGET se = Inr t \<and>
           tree_path (sh_pwd se) t = tree_path (sh_pwd se) h' @ [''.claude'', ''skills''])) \<and>
   (\<not> GLOBAL se \<and> strip_newlines (sh_pwd se) = sh_pwd se \<longrightarrow>
      (\<exists>t. TARGET se = Inr t \<and>
           tree_path (sh_pwd se) t = tree_path (sh_pwd se) (sh_pwd se) @ [''.claude'', ''skills'']))"
proof (intro conjI impI)
  show "isGlobal e \<longleftrightarrow> ''--global'' \<in> set (drop 2 (argv e))"
    by (simp add: isGlobal_def)
next
  assume "isGlobal e \<and> env_HOME e = Some h \<and> h \<noteq> []"
  then have "targetBase e = path_join [Some h, Some ''.claude'', Some ''skills'']"
    by (simp add: targetBase_def js_or_def)
  with js_destination[of h "cwd e"]
  show "\<exists>t. targetBase e = Inr t \<and>
           tree_path (cwd e) t = tree_path (cwd e) h @ [''.claude'', ''skills'']"
    by simp
next
  assume "isGlobal e \<and> (env_HOME e = None \<or> env_HOME e = Some []) \<and>
    env_USERPROFILE e = Some u \<and> u \<noteq> []"
  then have "targetBase e = path_join [Some u, Some ''.claude'', Some ''skills'']"
    by (auto simp: targetBase_def js_or_def)
  with js_destination[of u "cwd e"]
  show "\<exists>t. targetBase e = Inr t \<and>
           tree_path (cwd e) t = tree_path (cwd e) u @ [''.claude'', ''skills'']"
    by simp
next
  assume "\<not> isGlobal e"
  then have "targetBase e = path_join [Some (cwd e), Some ''.claude'', Some ''skills'']"
    by (simp add: targetBase_def)
  with js_destination[of "cwd e" "cwd e"]
  show "\<exists>t. targetBase e = Inr t \<and>
           tree_path (cwd e) t = tree_path (cwd e) (cwd e) @ [''.claude'', ''skills'']"
    by simp
next
  show "GLOBAL se \<longleftrightarrow> ''--global'' \<in> set (sh_args se)" by (rule GLOBAL_iff)
next
  assume "GLOBAL se \<and> sh_HOME se = Some h' \<and> h' \<noteq> []"
  then have "TARGET se = Inr (h' @ ''/.claude/skills'')" and "h' \<noteq> []"
    by (simp_all add: TARGET_def)
  with tree_path_sub[of h' "sh_pwd se"]
  show "\<exists>t. TARGET se = Inr t \<and>
           tree_path (sh_pwd se) t = tree_path (sh_pwd se) h' @ [''.claude'', ''skills'']"
    by simp
next
  assume "\<not> GLOBAL se \<and> strip_newlines (sh_pwd se) = sh_pwd se"
  then have "TARGET se = Inr (sh_pwd se @ ''/.claude/skills'')"
    by (simp add: TARGET_def)
  with tree_path_sub_wd[of "sh_pwd se"]
  show "\<exists>t. TARGET se = Inr t \<and>
           tree_path (sh_pwd se) t = tree_path (sh_pwd se) (sh_pwd se) @ [''.claude'', ''skills'']"
    by simp
qed

text \<open>
  With the flag and \<open>HOME\<close> set to the empty string, the script's destination is
  \<open>/.claude/skills\<close>, at the root of the file system, and the local installer, with no
  \<open>USERPROFILE\<close> to fall back on, raises the \<open>TypeError\<close> of \<open>path.join\<close>.
\<close>

lemma destination_empty_home:
  "GLOBAL sh_home_empty \<and> TARGET sh_home_empty = Inr ''/.claude/skills'' \<and>
   tree_path (sh_pwd sh_home_empty) ''/.claude/skills'' = [''.claude'', ''skills''] \<and>
   isGlobal js_home_empty \<and> targetBase js_home_empty = Inl ERR_INVALID_ARG_TYPE"
  by code_simp

section \<open>The claims\<close>

text \<open>
  C1 says that, without the flag, the destination root of either installer is the subpath
  \<open>.claude/skills\<close> of the current working directory. Both installers are run without
  a flag in a working directory under \<open>/home/u\<close> whose name is \<open>proj\<close> followed by
  a newline, on a machine that also has a directory \<open>/home/u/proj\<close>. The local installer
  reads \<open>process.cwd()\<close> and installs the skill \<open>alpha\<close> below \<open>.claude/skills\<close> in the
  working directory. The script reads \<open>$(pwd)\<close>, which drops the newline: its
  \<open>TARGET\<close> is \<open>/home/u/proj/.claude/skills\<close>, the skill is installed in the
  neighbouring directory \<open>/home/u/proj\<close>, and the working directory gets no \<open>.claude\<close>
  at all. Both runs end with status 0.
\<close>

theorem destination_newline_cwd:
  "cwd js_nl = sh_pwd sh_nl \<and> \<not> isGlobal js_nl \<and> \<not> GLOBAL sh_nl \<and>
   is_dir (lookup fs_nl (tree_path (cwd js_nl) (cwd js_nl))) \<and>
   tree_path (cwd js_nl) (cwd js_nl) = [''home'', ''u'', ''proj'' @ [CHR 0x0A]] \<and>
   targetBase js_nl = Inr (''/home/u/proj'' @ [CHR 0x0A] @ ''/.claude/skills'') \<and>
   tree_path (cwd js_nl) (''/home/u/proj'' @ [CHR 0x0A] @ ''/.claude/skills'')
     = [''home'', ''u'', ''proj'' @ [CHR 0x0A], ''.claude'', ''skills''] \<and>
   TARGET sh_nl = Inr ''/home/u/proj/.claude/skills'' \<and>
   tree_path (sh_pwd sh_nl) ''/home/u/proj/.claude/skills''
     = [''home'', ''u'', ''proj'', ''.claude'', ''skills''] \<and>
   tree_path (sh_pwd sh_nl) ''/home/u/proj/.claude/skills''
     \<noteq> tree_path (sh_pwd sh_nl) (sh_pwd sh_nl) @ [''.claude'', ''skills''] \<and>
   exit_code (install_js js_nl fs_nl) = 0 \<and>
   exit_code (install_sh sh_nl fs_nl) = 0 \<and>
   is_dir (lookup (disk (install_js js_nl fs_nl))
             [''home'', ''u'', ''proj'' @ [CHR 0x0A], ''.claude'', ''skills'', ''alpha'']) \<and>
   lookup (disk (install_sh sh_nl fs_nl)) [''home'', ''u'', ''proj'' @ [CHR 0x0A], ''.claude'']
     = None \<and>
   is_dir (lookup (disk (install_sh sh_nl fs_nl))
             [''home'', ''u'', ''proj'', ''.claude'', ''skills'', ''alpha''])"
  by code_simp

text \<open>
  C10. In the local-payload installer, when \<open>--global\<close> is passed and neither \<open>HOME\<close>
  nor \<open>USERPROFILE\<close> is set, computing the destination path raises (\<open>path.join\<close> gets
  \<open>undefined\<close>), and the run ends with status 1 on the file system it started with:
  nothing has been created or changed.
\<close>

theorem global_without_home_fails:
  assumes "isGlobal e" and "env_HOME e = None" and "env_USERPROFILE e = None"
  shows "targetBase e = Inl ERR_INVALID_ARG_TYPE \<and>
         install_js e fs =
           \<lparr>disk = fs, stdout = [], stderr = [Diagnostic ''node'' ERR_INVALID_ARG_TYPE],
            exit_code = 1\<rparr>"
proof -
  have tb: "targetBase e = Inl ERR_INVALID_ARG_TYPE"
    using assms by (simp add: targetBase_def js_or_def path_join_def)
  then show ?thesis by (simp add: install_js_def)
qed

theorem global_without_home_fails_witness:
  "isGlobal js_global_no_home \<and> env_HOME js_global_no_home = None \<and>
   env_USERPROFILE js_global_no_home = None \<and>
   targetBase js_global_no_home = Inl ERR_INVALID_ARG_TYPE \<and>
   install_js js_global_no_home fs_demo =
     \<lparr>disk = fs_demo, stdout = [], stderr = [Diagnostic ''node'' ERR_INVALID_ARG_TYPE],
      exit_code = 1\<rparr>"
proof -
  have h: "isGlobal js_global_no_home" "env_HOME js_global_no_home = None"
    "env_USERPROFILE js_global_no_home = None"
    by (simp_all add: isGlobal_def js_global_no_home_def)
  from global_without_home_fails [OF h, of fs_demo] h show ?thesis by simp
qed

text \<open>
  C6. When the payload source cannot be located (local installer: \<open>skills/\<close> next to the
  package does not exist) the run prints an error, exits with status 1 and leaves the file
  system as it was; when the snapshot cannot be fetched (remote installer: \<open>git clone\<close>
  fails) the run reports on standard error, exits with a non-zero status and leaves the
  file system as it was. So the destination root is neither created nor modified.
\<close>

theorem missing_payload_fails:
  "(\<not> existsSync fs (tree_path (cwd e) (skillsSource e)) \<longrightarrow>
      install_js e fs =
        \<lparr>disk = fs, stdout = [],
         stderr = [case targetBase e of
                     Inl err \<Rightarrow> Diagnostic ''node'' err
                   | Inr t \<Rightarrow> Text (''Error: skills/ directory not found at '' @ skillsSource e)],
         exit_code = 1\<rparr>) \<and>
   (remote se = None \<longrightarrow>
      disk (install_sh se fs) = fs \<and> stderr (install_sh se fs) \<noteq> [] \<and>
      exit_code (install_sh se fs) \<noteq> 0)"
proof (intro conjI impI)
  assume "\<not> existsSync fs (tree_path (cwd e) (skillsSource e))"
  then show "install_js e fs =
        \<lparr>disk = fs, stdout = [],
         stderr = [case targetBase e of
                     Inl err \<Rightarrow> Diagnostic ''node'' err
                   | Inr t \<Rightarrow> Text (''Error: skills/ directory not found at '' @ skillsSource e)],
         exit_code = 1\<rparr>"
    by (cases "targetBase e") (simp_all add: install_js_def Let_def)
next
  assume r: "remote se = None"
  show "disk (install_sh se fs) = fs" using fetch_failure_leaves_disk[OF r] by simp
  show "stderr (install_sh se fs) \<noteq> []" using fetch_failure_leaves_disk[OF r] by simp
  show "exit_code (install_sh se fs) \<noteq> 0" using fetch_failure_leaves_disk[OF r] by simp
qed

theorem missing_payload_fails_witness:
  "\<not> existsSync fs_demo (tree_path (cwd js_no_payload) (skillsSource js_no_payload)) \<and>
   remote sh_fetch_fails = None \<and>
   install_js js_no_payload fs_demo =
     \<lparr>disk = fs_demo, stdout = [],
      stderr = [Text ''Error: skills/ directory not found at /opt/skills''], exit_code = 1\<rparr> \<and>
   disk (install_sh sh_fetch_fails fs_demo) = fs_demo \<and>
   stderr (install_sh sh_fetch_fails fs_demo) \<noteq> [] \<and>
   exit_code (install_sh sh_fetch_fails fs_demo) \<noteq> 0"
proof -
  have a: "\<not> existsSync fs_demo (tree_path (cwd js_no_payload) (skillsSource js_no_payload))"
    by (simp add: js_no_payload_path existsSync_def fs_demo_def)
  have b: "remote sh_fetch_fails = None" by (simp add: sh_fetch_fails_def)
  have t: "targetBase js_no_payload = Inr ''/home/u/proj/.claude/skills''"
    by (simp add: targetBase_def js_no_payload_def isGlobal_def path_join_def normalize_def
        is_absolute_def trailing_slash_def)
  have s: "skillsSource js_no_payload = ''/opt/skills''"
    by (simp add: js_no_payload_def skillsSource_def path_resolve_def is_absolute_def)
  from missing_payload_fails [of fs_demo js_no_payload sh_fetch_fails] a b t s
  show ?thesis by simp
qed






text \<open>
  C8 says that the summary line of a successful run reports the number of skill directories
  in the payload source, after one progress line for each. On a payload with the directories
  \<open>.drafts\<close> and \<open>alpha\<close> the local installer prints a progress line for both and
  reports 2 skills. The remote installer, given the same payload as its clone, prints the
  progress line of \<open>alpha\<close> only and reports 1 skill: the pattern \<open>*/\<close> of its loop
  does not match \<open>.drafts\<close>. Both runs end with status 0.
\<close>

theorem dot_directory_not_counted:
  "lookup fs_dot [''pkg'', ''skills''] =
     Some (Dir [(''.drafts'', Dir [(''SKILL.md'', File ''D'')]),
                (''alpha'', Dir [(''SKILL.md'', File ''A'')])]) \<and>
   remote sh_dot =
     Some [(''skills'', Dir [(''.drafts'', Dir [(''SKILL.md'', File ''D'')]),
                             (''alpha'', Dir [(''SKILL.md'', File ''A'')])])] \<and>
   length (dir_names [(''.drafts'', Dir [(''SKILL.md'', File ''D'')]),
                      (''alpha'', Dir [(''SKILL.md'', File ''A'')])]) = 2 \<and>
   exit_code (install_js js_demo fs_dot) = 0 \<and>
   stdout (install_js js_demo fs_dot) =
     ['''', ''Installing Next.js Claude skills to project...'',
      ''Target: /home/u/proj/.claude/skills'', '''',
      check_mark @ ''.drafts'', check_mark @ ''alpha'', '''',
      ''Done! 2 skills installed.'', '''',
      ''Skills are auto-activated by Claude Code based on your prompts.'',
      ''No additional configuration needed.'', ''''] \<and>
   exit_code (install_sh sh_dot fs_demo) = 0 \<and>
   stdout (install_sh sh_dot fs_demo) =
     ['''', ''Cloning Next.js Claude skills...'',
      ''Installing to project at /home/u/proj/.claude/skills'', '''',
      ''  + alpha'', '''',
      ''Done! 1 skills installed.'', '''',
      ''Skills are auto-activated by Claude Code based on your prompts.'',
      ''No additional configuration needed.'', '''']"
  by code_simp

text \<open>
  C9. In the local installer the entries of the payload source that are not directories are
  ignored. With \<open>es\<close> the listing of the payload source: when no entry is a directory the
  run stops with \<open>No skill directories found\<close>, whatever else is listed; a name that is
  not the name of a directory entry is not copied (the destination entry of that name, and
  all below it, is as before the run) and gets no progress line, on every run; and on a
  successful run the progress lines and the count are those of the directory entries alone.
\<close>

theorem non_directories_ignored:
  assumes "targetBase e = Inr t"
    and "lookup fs (tree_path (cwd e) (skillsSource e)) = Some (Dir es)"
  shows "((\<forall>m \<in> snd ` set es. \<not> is_dir (Some m)) \<longrightarrow>
            install_js e fs =
              \<lparr>disk = fs, stdout = [],
               stderr = [Text (''Error: No skill directories found in '' @ skillsSource e)],
               exit_code = 1\<rparr>) \<and>
         (k \<notin> set (dir_names es) \<longrightarrow>
            lookup (disk (install_js e fs)) (tree_path (cwd e) t @ k # q)
              = lookup fs (tree_path (cwd e) t @ k # q) \<and>
            check_mark @ k \<notin> set (stdout (install_js e fs))) \<and>
         (exit_code (install_js e fs) = 0 \<longrightarrow>
            stdout (install_js e fs) =
              ['''', (if isGlobal e then ''Installing Next.js Claude skills globally...''
                      else ''Installing Next.js Claude skills to project...''),
               ''Target: '' @ t, ''''] @
              map ((@) check_mark) (dir_names es) @ closing_lines (length (dir_names es)))"
proof (intro conjI impI)
  assume "\<forall>m \<in> snd ` set es. \<not> is_dir (Some m)"
  then have "dir_names es = []" by (rule no_dirs_names)
  then show "install_js e fs =
              \<lparr>disk = fs, stdout = [],
               stderr = [Text (''Error: No skill directories found in '' @ skillsSource e)],
               exit_code = 1\<rparr>"
    by (subst install_js_steps[OF assms]) simp
next
  assume "k \<notin> set (dir_names es)"
  from install_js_untouched[OF assms this]
  show "lookup (disk (install_js e fs)) (tree_path (cwd e) t @ k # q)
              = lookup fs (tree_path (cwd e) t @ k # q)"
    and "check_mark @ k \<notin> set (stdout (install_js e fs))" by simp_all
next
  assume "exit_code (install_js e fs) = 0"
  from install_js_stdout[OF this assms]
  show "stdout (install_js e fs) =
              ['''', (if isGlobal e then ''Installing Next.js Claude skills globally...''
                      else ''Installing Next.js Claude skills to project...''),
               ''Target: '' @ t, ''''] @
              map ((@) check_mark) (dir_names es) @ closing_lines (length (dir_names es))" .
qed

theorem non_directories_ignored_witness:
  "targetBase js_demo = Inr ''/home/u/proj/.claude/skills'' \<and>
   lookup fs_flat (tree_path (cwd js_demo) (skillsSource js_demo)) = Some (Dir [(''NOTES'', File ''n'')]) \<and>
   install_js js_demo fs_flat =
     \<lparr>disk = fs_flat, stdout = [],
      stderr = [Text ''Error: No skill directories found in /pkg/skills''], exit_code = 1\<rparr> \<and>
   lookup fs_demo (tree_path (cwd js_demo) (skillsSource js_demo)) =
     Some (Dir [(''alpha'', Dir [(''SKILL.md'', File ''A'')]), (''NOTES'', File ''n''),
                (''beta'', Dir [(''SKILL.md'', File ''B'')])]) \<and>
   exit_code (install_js js_demo fs_demo) = 0 \<and>
   lookup (disk (install_js js_demo fs_demo))
     [''home'', ''u'', ''proj'', ''.claude'', ''skills'', ''NOTES''] = None \<and>
   check_mark @ ''NOTES'' \<notin> set (stdout (install_js js_demo fs_demo)) \<and>
   stdout (install_js js_demo fs_demo) =
     ['''', ''Installing Next.js Claude skills to project...'',
      ''Target: /home/u/proj/.claude/skills'', '''',
      check_mark @ ''alpha'', check_mark @ ''beta''] @ closing_lines 2"
proof -
  have tb: "targetBase js_demo = Inr ''/home/u/proj/.claude/skills''" by (rule js_demo_paths(2))
  have p1: "lookup fs_flat (tree_path (cwd js_demo) (skillsSource js_demo)) = Some (Dir [(''NOTES'', File ''n'')])"
    by (simp add: js_demo_paths fs_flat_def)
  have nd: "\<forall>m \<in> snd ` set [(''NOTES'', File ''n'')]. \<not> is_dir (Some m)"
    by (simp add: is_dir_def)
  have ss: "skillsSource js_demo = ''/pkg/skills''"
    by (simp add: js_demo_def skillsSource_def path_resolve_def is_absolute_def)
  have p2: "lookup fs_demo (tree_path (cwd js_demo) (skillsSource js_demo)) =
     Some (Dir [(''alpha'', Dir [(''SKILL.md'', File ''A'')]), (''NOTES'', File ''n''),
                (''beta'', Dir [(''SKILL.md'', File ''B'')])])"
    by (simp add: js_demo_paths fs_demo_def)
  have n1: "dir_names [(''alpha'', Dir [(''SKILL.md'', File ''A'')]), (''NOTES'', File ''n''),
                (''beta'', Dir [(''SKILL.md'', File ''B'')])] = [''alpha'', ''beta'']"
    by (simp add: dir_names_def is_dir_def)
  have ex: "exit_code (install_js js_demo fs_demo) = 0" by (simp add: run_js_demo)
  have g: "\<not> isGlobal js_demo" by (simp add: isGlobal_def js_demo_def)
  have l: "lookup fs_demo [''home'', ''u'', ''proj'', ''.claude'', ''skills'', ''NOTES''] = None"
    by (simp add: fs_demo_def)
  from non_directories_ignored [OF tb p1, of "''NOTES''" "[]"] nd ss
  have a: "install_js js_demo fs_flat =
     \<lparr>disk = fs_flat, stdout = [],
      stderr = [Text ''Error: No skill directories found in /pkg/skills''], exit_code = 1\<rparr>"
    by simp
  from non_directories_ignored [OF tb p2, of "''NOTES''" "[]"] ex g l
  have b: "lookup (disk (install_js js_demo fs_demo))
     [''home'', ''u'', ''proj'', ''.claude'', ''skills'', ''NOTES''] = None"
    and c: "check_mark @ ''NOTES'' \<notin> set (stdout (install_js js_demo fs_demo))"
    and d: "stdout (install_js js_demo fs_demo) =
     ['''', ''Installing Next.js Claude skills to project...'',
      ''Target: /home/u/proj/.claude/skills'', '''',
      check_mark @ ''alpha'', check_mark @ ''beta''] @ closing_lines 2"
    unfolding n1 by (simp_all add: js_demo_paths numeral_2_eq_2 check_mark_line)
  from tb p1 a p2 ex b c d show ?thesis by simp
qed




text \<open>
  C3, as amended, for the local installer. On a successful run over a well-formed file
  system, with payload source and destination root apart, every skill is copied \<^emph>\<open>onto\<close>
  the destination directory of its name: where the source skill has a file the destination
  has that file with the source's content (an older file of that name is overwritten),
  where the source has a directory the destination has a directory, and where the source
  has nothing the destination keeps what it had. So a re-install refreshes the payload's
  files and merges with what is there; it does not remove files that the source lacks.
\<close>

theorem reinstall_merges:
  assumes "exit_code (install_js e fs) = 0" and "targetBase e = Inr t"
    and "lookup fs (tree_path (cwd e) (skillsSource e)) = Some (Dir es)"
    and "wf fs"
    and "apart (tree_path (cwd e) (skillsSource e)) (tree_path (cwd e) t)"
    and "k \<in> set (dir_names es)"
  shows "(lookup fs (tree_path (cwd e) (skillsSource e) @ k # q) = Some (File c) \<longrightarrow>
            lookup (disk (install_js e fs)) (tree_path (cwd e) t @ k # q) = Some (File c)) \<and>
         (is_dir (lookup fs (tree_path (cwd e) (skillsSource e) @ k # q)) \<longrightarrow>
            is_dir (lookup (disk (install_js e fs)) (tree_path (cwd e) t @ k # q))) \<and>
         (lookup fs (tree_path (cwd e) (skillsSource e) @ k # q) = None \<longrightarrow>
            lookup (disk (install_js e fs)) (tree_path (cwd e) t @ k # q)
              = lookup fs (tree_path (cwd e) t @ k # q))"
proof -
  let ?S = "tree_path (cwd e) (skillsSource e)"
  let ?T = "tree_path (cwd e) t"
  from install_js_skill[OF assms] obtain xs d' where
    src: "lookup fs (?S @ [k]) = Some (Dir xs)"
    and c: "cp_node True (Dir xs) (lookup fs (?T @ [k])) = (d', None)"
    and l: "\<And>q. lookup (disk (install_js e fs)) (?T @ k # q) = lookup d' q"
    by blast
  have w: "wf (Dir xs)" by (rule wf_lookup[OF assms(4) src])
  have s: "lookup fs (?S @ k # q) = lookup (Dir xs) q"
    using src lookup_append[of fs "?S @ [k]" q] by simp
  have d: "lookup fs (?T @ k # q) = (case lookup fs (?T @ [k]) of None \<Rightarrow> None | Some x \<Rightarrow> lookup x q)"
    using lookup_append[of fs "?T @ [k]" q] by simp
  from cp_node_lookup[OF w c, of q] show ?thesis
    unfolding l s d by blast
qed

theorem reinstall_merges_witness:
  "exit_code (install_js js_demo fs_stale) = 0 \<and>
   targetBase js_demo = Inr ''/home/u/proj/.claude/skills'' \<and>
   wf fs_stale \<and>
   apart [''pkg'', ''skills''] [''home'', ''u'', ''proj'', ''.claude'', ''skills''] \<and>
   lookup fs_stale [''pkg'', ''skills'', ''alpha'', ''SKILL.md''] = Some (File ''A'') \<and>
   lookup fs_stale [''home'', ''u'', ''proj'', ''.claude'', ''skills'', ''alpha'', ''SKILL.md'']
     = Some (File ''old'') \<and>
   lookup (disk (install_js js_demo fs_stale))
     [''home'', ''u'', ''proj'', ''.claude'', ''skills'', ''alpha'', ''SKILL.md''] = Some (File ''A'') \<and>
   is_dir (lookup fs_stale [''pkg'', ''skills'', ''alpha'']) \<and>
   is_dir (lookup (disk (install_js js_demo fs_stale))
             [''home'', ''u'', ''proj'', ''.claude'', ''skills'', ''alpha'']) \<and>
   lookup fs_stale [''pkg'', ''skills'', ''alpha'', ''local.md''] = None \<and>
   lookup (disk (install_js js_demo fs_stale))
     [''home'', ''u'', ''proj'', ''.claude'', ''skills'', ''alpha'', ''local.md''] = Some (File ''L'')"
proof -
  have j1: "exit_code (install_js js_demo fs_stale) = 0" by (simp add: run_js_stale)
  have pay: "lookup fs_stale (tree_path (cwd js_demo) (skillsSource js_demo)) =
     Some (Dir [(''alpha'', Dir [(''SKILL.md'', File ''A'')]), (''NOTES'', File ''n''),
                (''beta'', Dir [(''SKILL.md'', File ''B'')])])"
    by (simp add: js_demo_paths demo_payload)
  have ap: "apart (tree_path (cwd js_demo) (skillsSource js_demo))
              (tree_path (cwd js_demo) ''/home/u/proj/.claude/skills'')"
    by (simp add: js_demo_paths demo_apart)
  have k: "''alpha'' \<in> set (dir_names [(''alpha'', Dir [(''SKILL.md'', File ''A'')]),
              (''NOTES'', File ''n''), (''beta'', Dir [(''SKILL.md'', File ''B'')])])"
    by (simp add: demo_payload)
  note m = reinstall_merges [OF j1 js_demo_paths(2) pay demo_wf(1) ap k]
  have a: "lookup fs_stale [''pkg'', ''skills'', ''alpha'', ''SKILL.md''] = Some (File ''A'')"
    and a': "lookup fs_stale [''home'', ''u'', ''proj'', ''.claude'', ''skills'', ''alpha'', ''SKILL.md'']
     = Some (File ''old'')"
    and b: "is_dir (lookup fs_stale [''pkg'', ''skills'', ''alpha''])"
    and c: "lookup fs_stale [''pkg'', ''skills'', ''alpha'', ''local.md''] = None"
    and c': "lookup fs_stale [''home'', ''u'', ''proj'', ''.claude'', ''skills'', ''alpha'', ''local.md'']
     = Some (File ''L'')"
    by (simp_all add: fs_stale_def is_dir_def)
  from m [of "[''SKILL.md'']" "''A''"] a
  have 1: "lookup (disk (install_js js_demo fs_stale))
     [''home'', ''u'', ''proj'', ''.claude'', ''skills'', ''alpha'', ''SKILL.md''] = Some (File ''A'')"
    by (simp add: js_demo_paths)
  from m [of "[]" "''A''"] b
  have 2: "is_dir (lookup (disk (install_js js_demo fs_stale))
             [''home'', ''u'', ''proj'', ''.claude'', ''skills'', ''alpha''])"
    by (simp add: js_demo_paths)
  from m [of "[''local.md'']" "''A''"] c c'
  have 3: "lookup (disk (install_js js_demo fs_stale))
     [''home'', ''u'', ''proj'', ''.claude'', ''skills'', ''alpha'', ''local.md''] = Some (File ''L'')"
    by (simp add: js_demo_paths)
  from j1 js_demo_paths(2) demo_wf(1) demo_apart(1) a a' b c 1 2 3 show ?thesis by simp
qed

text \<open>
  The claim as first stated says that the destination directory ends up equal to the payload
  copy. The destination \<open>alpha\<close> held an older \<open>SKILL.md\<close> and a file \<open>local.md\<close>;
  after the re-install \<open>SKILL.md\<close> is the payload's and \<open>local.md\<close> is still there.
\<close>

theorem reinstall_replaces_counterexample:
  "exit_code (install_js js_demo fs_stale) = 0 \<and>
   lookup fs_stale [''home'', ''u'', ''proj'', ''.claude'', ''skills'', ''alpha''] =
     Some (Dir [(''SKILL.md'', File ''old''), (''local.md'', File ''L'')]) \<and>
   lookup fs_stale [''pkg'', ''skills'', ''alpha''] = Some (Dir [(''SKILL.md'', File ''A'')]) \<and>
   lookup (disk (install_js js_demo fs_stale))
     [''home'', ''u'', ''proj'', ''.claude'', ''skills'', ''alpha''] =
     Some (Dir [(''SKILL.md'', File ''A''), (''local.md'', File ''L'')])"
  by code_simp

text \<open>
  C4. The local installer is idempotent (\<open>install_js_idempotent\<close> above). The remote
  installer is not where \<open>cp\<close> follows POSIX (GNU coreutils): on the second run
  \<open>$TARGET/alpha\<close> exists, so \<open>cp -r .../alpha/ "$TARGET/alpha"\<close> copies the skill
  into it, and the destination has \<open>alpha/alpha\<close>. Two runs in sequence leave a file
  system that differs from the one a single run leaves.
\<close>

theorem reinstall_sh_nests:
  "exit_code (install_sh sh_demo fs_demo) = 0 \<and>
   exit_code (install_sh sh_demo (disk (install_sh sh_demo fs_demo))) = 0 \<and>
   lookup (disk (install_sh sh_demo fs_demo))
     [''home'', ''u'', ''proj'', ''.claude'', ''skills'', ''alpha''] =
     Some (Dir [(''SKILL.md'', File ''A'')]) \<and>
   lookup (disk (install_sh sh_demo (disk (install_sh sh_demo fs_demo))))
     [''home'', ''u'', ''proj'', ''.claude'', ''skills'', ''alpha''] =
     Some (Dir [(''SKILL.md'', File ''A''), (''alpha'', Dir [(''SKILL.md'', File ''A'')])]) \<and>
   disk (install_sh sh_demo (disk (install_sh sh_demo fs_demo))) \<noteq> disk (install_sh sh_demo fs_demo)"
  by code_simp

end
